theory Spec2Isabelle
  imports Complex_Main
begin

section \<open>Data model\<close>

text \<open>
  A model of the wallet manager of the AO wallet connector: class \<open>WalletManager\<close>
  with its registry of strategies, its connection state, its observers and its
  session cache, the provider's repair effect, and \<open>createAoSigner\<close>.

  The manager's collaborators are part of the model as far as the manager can see them.
  A wallet backend is given by what each of its methods answers (a value or an
  exception; an address or a public key may be null, whatever type the method
  declares). The browser storage is a store whose calls may throw. An observer is a function reference together with what the function does
  when called: it may call unsubscribe handles, and it may throw. Operations run one
  at a time, to completion; a delay is not modelled.
\<close>

text \<open>
  Errors that the wallet manager raises itself, and errors that reach it from its
  collaborators (a wallet backend, the browser storage, an observer callback).
\<close>

datatype error =
    NoStrategySelected
  | FailedToSetCachedStrategy
  | TypeError
  | StorageError
  | BackendError string
  | ObserverError string

text \<open>
  The three strategy classes of the repository. Only \<open>WAuthStrategy\<close> takes a
  constructor argument (the provider), and only it defines the optional method
  \<open>reconnect\<close>.
\<close>

datatype WalletStrategy =
    ArweaveWalletStrategy
  | MetaMaskWalletStrategy
  | WAuthStrategy string

fun strategy_id :: "WalletStrategy \<Rightarrow> string" where
  "strategy_id ArweaveWalletStrategy = ''arweave-native''"
| "strategy_id MetaMaskWalletStrategy = ''metamask''"
| "strategy_id (WAuthStrategy provider) = ''wauth-'' @ provider"

fun has_reconnect :: "WalletStrategy \<Rightarrow> bool" where
  "has_reconnect (WAuthStrategy provider) = True"
| "has_reconnect ArweaveWalletStrategy = False"
| "has_reconnect MetaMaskWalletStrategy = False"

text \<open>
  A strategy object: the number \<open>oid\<close> is its identity (every constructor call
  yields a fresh one), \<open>cls\<close> is what was constructed. Two references are
  identity-equal exactly when they are equal as values of this type.
\<close>

record strategy_object =
  oid :: nat
  cls :: WalletStrategy

record WalletConnectionState =
  connected :: bool
  address :: "string option"
  publicKey :: "string option"
  permissions :: "string list"
  strategy :: "strategy_object option"

text \<open>\<open>Partial<WalletConnectionState>\<close>: every key may be absent.\<close>

record updates =
  u_connected :: "bool option"
  u_address :: "string option option"
  u_publicKey :: "string option option"
  u_permissions :: "string list option"
  u_strategy :: "strategy_object option option"

definition no_updates :: updates where
  "no_updates = \<lparr>u_connected = None, u_address = None, u_publicKey = None,
     u_permissions = None, u_strategy = None\<rparr>"

text \<open>The object spread \<open>{ ...st, ...u }\<close>.\<close>

definition spread :: "WalletConnectionState \<Rightarrow> updates \<Rightarrow> WalletConnectionState" where
  "spread st u =
     \<lparr>connected = (case u_connected u of None \<Rightarrow> connected st | Some v \<Rightarrow> v),
      address = (case u_address u of None \<Rightarrow> address st | Some v \<Rightarrow> v),
      publicKey = (case u_publicKey u of None \<Rightarrow> publicKey st | Some v \<Rightarrow> v),
      permissions = (case u_permissions u of None \<Rightarrow> permissions st | Some v \<Rightarrow> v),
      strategy = (case u_strategy u of None \<Rightarrow> strategy st | Some v \<Rightarrow> v)\<rparr>"

definition disconnected_default :: WalletConnectionState where
  "disconnected_default =
     \<lparr>connected = False, address = None, publicKey = None, permissions = [],
      strategy = None\<rparr>"

subsection \<open>Browser storage\<close>

text \<open>
  \<open>localStorage\<close> is a string-keyed store whose calls may throw (storage blocked
  or full); the manager wraps most of its accesses in \<open>try\<close>/\<open>catch\<close>. Reads
  succeed when \<open>readable\<close> is set; \<open>setItem\<close> and \<open>removeItem\<close> succeed when
  \<open>writable\<close> is set.
\<close>

record storage =
  items :: "string \<rightharpoonup> string"
  readable :: bool
  writable :: bool

definition getItem :: "string \<Rightarrow> storage \<Rightarrow> error + string option" where
  "getItem k ls = (if readable ls then Inr (items ls k) else Inl StorageError)"

definition setItem :: "string \<Rightarrow> string \<Rightarrow> storage \<Rightarrow> error + storage" where
  "setItem k v ls =
     (if writable ls then Inr (ls\<lparr>items := (items ls)(k \<mapsto> v)\<rparr>) else Inl StorageError)"

definition removeItem :: "string \<Rightarrow> storage \<Rightarrow> error + storage" where
  "removeItem k ls =
     (if writable ls then Inr (ls\<lparr>items := (items ls)(k := None)\<rparr>) else Inl StorageError)"

definition STORAGE_KEYS_STRATEGY :: string where
  "STORAGE_KEYS_STRATEGY = ''ao_wallet_strategy''"

definition STORAGE_KEYS_ADDRESS :: string where
  "STORAGE_KEYS_ADDRESS = ''ao_wallet_address''"

text \<open>Truthiness of a \<open>string | null\<close> value: null and the empty string are falsy.\<close>

fun truthy :: "string option \<Rightarrow> bool" where
  "truthy None = False"
| "truthy (Some s) = (s \<noteq> [])"

subsection \<open>String primitives\<close>

fun startsWith :: "string \<Rightarrow> string \<Rightarrow> bool" where
  "startsWith s [] = True"
| "startsWith [] (c # p) = False"
| "startsWith (a # s) (c # p) = (a = c \<and> startsWith s p)"

text \<open>\<open>s.replace(pat, rep)\<close> with a string pattern: the first occurrence only.\<close>

fun js_replace :: "string \<Rightarrow> string \<Rightarrow> string \<Rightarrow> string" where
  "js_replace pat rep s =
     (if startsWith s pat then rep @ drop (length pat) s
      else (case s of [] \<Rightarrow> [] | c # cs \<Rightarrow> c # js_replace pat rep cs))"

declare js_replace.simps [simp del]

subsection \<open>The manager and the objects around it\<close>

text \<open>
  What an observer callback does when it is called: it may call unsubscribe handles
  (each handle removes the callback it was created for) and it may throw.
\<close>

datatype callback_action = Unsubscribe nat | Throw error

text \<open>
  The first four fields are the fields of class \<open>WalletManager\<close>. \<open>state\<close> is a
  reference into \<open>objects\<close>, the store of connection-state objects, where
  \<open>next_object\<close> is the next unused reference. \<open>constructed\<close> counts the strategy
  objects constructed so far and is the identity of the next one. Observer callbacks
  are function references (numbers); \<open>callbacks\<close> gives their behaviour, and
  \<open>notifications\<close> records every call of a callback with the state it received.
\<close>

record runtime =
  strategies :: "string \<rightharpoonup> strategy_object"
  currentStrategy :: "strategy_object option"
  state :: nat
  stateListeners :: "nat list"
  objects :: "nat \<Rightarrow> WalletConnectionState"
  next_object :: nat
  constructed :: nat
  localStorage :: storage
  callbacks :: "nat \<Rightarrow> callback_action list"
  notifications :: "(nat \<times> WalletConnectionState) list"

text \<open>
  What the wallet backend behind a strategy object answers when one of its methods
  is called during a manager operation. \<open>getActiveAddress\<close> and
  \<open>getActivePublicKey\<close> are declared to resolve to a string, but the backends are
  browser extensions and SDKs outside the type checker, and the manager stores what
  they resolve to without a check: \<open>None\<close> is a resolution to null or undefined.
\<close>

record strategy_calls =
  on_connect :: "string list option \<Rightarrow> error + unit"
  on_disconnect :: "error + unit"
  on_getActiveAddress :: "error + string option"
  on_getActivePublicKey :: "error + string option"
  on_getPermissions :: "error + string list"
  on_reconnect :: "error + unit"

type_synonym backends = "nat \<Rightarrow> strategy_calls"

definition current_state :: "runtime \<Rightarrow> WalletConnectionState" where
  "current_state r = objects r (state r)"

section \<open>Operations of WalletManager\<close>

definition new_strategy :: "WalletStrategy \<Rightarrow> runtime \<Rightarrow> strategy_object \<times> runtime" where
  "new_strategy c r =
     (\<lparr>oid = constructed r, cls = c\<rparr>, r\<lparr>constructed := Suc (constructed r)\<rparr>)"

definition getOrCreateWAuthStrategy ::
  "string \<Rightarrow> runtime \<Rightarrow> strategy_object option \<times> runtime" where
  "getOrCreateWAuthStrategy provider r =
     (let strategyId = ''wauth-'' @ provider;
          r1 = (if strategies r strategyId = None
                then (let (s, r') = new_strategy (WAuthStrategy provider) r
                      in r'\<lparr>strategies := (strategies r')(strategyId \<mapsto> s)\<rparr>)
                else r)
      in (strategies r1 strategyId, r1))"

subsection \<open>Observers\<close>

fun indexOf :: "nat list \<Rightarrow> nat \<Rightarrow> int" where
  "indexOf [] l = -1"
| "indexOf (x # xs) l =
     (if x = l then 0 else (let i = indexOf xs l in if i = -1 then -1 else i + 1))"

definition splice1 :: "nat \<Rightarrow> nat list \<Rightarrow> nat list" where
  "splice1 i xs = take i xs @ drop (Suc i) xs"

definition onStateChange :: "nat \<Rightarrow> runtime \<Rightarrow> runtime" where
  "onStateChange listener r = r\<lparr>stateListeners := stateListeners r @ [listener]\<rparr>"

text \<open>The closure that \<open>onStateChange listener\<close> returns.\<close>

definition unsubscribe :: "nat \<Rightarrow> runtime \<Rightarrow> runtime" where
  "unsubscribe listener r =
     (let index = indexOf (stateListeners r) listener
      in if index > -1
         then r\<lparr>stateListeners := splice1 (nat index) (stateListeners r)\<rparr>
         else r)"

fun run_callback :: "callback_action list \<Rightarrow> runtime \<Rightarrow> error option \<times> runtime" where
  "run_callback [] r = (None, r)"
| "run_callback (Unsubscribe l # acts) r = run_callback acts (unsubscribe l r)"
| "run_callback (Throw e # acts) r = (Some e, r)"

definition call_listener :: "nat \<Rightarrow> runtime \<Rightarrow> error option \<times> runtime" where
  "call_listener l r =
     run_callback (callbacks r l)
       (r\<lparr>notifications := notifications r @ [(l, current_state r)]\<rparr>)"

text \<open>
  \<open>Array.prototype.forEach\<close>: the length is read once, the indices below it are
  visited in order, and an index that is no longer in the array is passed over.
  The first argument counts the indices still to visit, the second is the index.
\<close>

fun forEach_listeners :: "nat \<Rightarrow> nat \<Rightarrow> runtime \<Rightarrow> error option \<times> runtime" where
  "forEach_listeners 0 k r = (None, r)"
| "forEach_listeners (Suc n) k r =
     (if k < length (stateListeners r)
      then (case call_listener (stateListeners r ! k) r of
              (Some e, r') \<Rightarrow> (Some e, r')
            | (None, r') \<Rightarrow> forEach_listeners n (Suc k) r')
      else forEach_listeners n (Suc k) r)"

definition updateState :: "updates \<Rightarrow> runtime \<Rightarrow> error option \<times> runtime" where
  "updateState u r =
     (let r1 = r\<lparr>objects := (objects r)(next_object r := spread (current_state r) u),
                  state := next_object r,
                  next_object := Suc (next_object r)\<rparr>
      in forEach_listeners (length (stateListeners r1)) 0 r1)"

text \<open>\<open>getState\<close> returns the reference of a new object, a copy of the state.\<close>

definition getState :: "runtime \<Rightarrow> nat \<times> runtime" where
  "getState r =
     (next_object r,
      r\<lparr>objects := (objects r)(next_object r := spread (current_state r) no_updates),
        next_object := Suc (next_object r)\<rparr>)"

subsection \<open>The session cache\<close>

definition cacheStrategy :: "string option \<Rightarrow> runtime \<Rightarrow> runtime" where
  "cacheStrategy strategyId r =
     (case (if truthy strategyId
            then setItem STORAGE_KEYS_STRATEGY (case strategyId of Some v \<Rightarrow> v | None \<Rightarrow> [])
                   (localStorage r)
            else removeItem STORAGE_KEYS_STRATEGY (localStorage r)) of
        Inr ls \<Rightarrow> r\<lparr>localStorage := ls\<rparr>
      | Inl e \<Rightarrow> r)"

definition cacheAddress :: "string option \<Rightarrow> runtime \<Rightarrow> runtime" where
  "cacheAddress addr r =
     (case (if truthy addr
            then setItem STORAGE_KEYS_ADDRESS (case addr of Some v \<Rightarrow> v | None \<Rightarrow> [])
                   (localStorage r)
            else removeItem STORAGE_KEYS_ADDRESS (localStorage r)) of
        Inr ls \<Rightarrow> r\<lparr>localStorage := ls\<rparr>
      | Inl e \<Rightarrow> r)"

definition getCachedAddress :: "runtime \<Rightarrow> string option" where
  "getCachedAddress r =
     (case getItem STORAGE_KEYS_ADDRESS (localStorage r) of
        Inr v \<Rightarrow> v
      | Inl e \<Rightarrow> None)"

subsection \<open>Selecting, connecting, disconnecting\<close>

definition setStrategy :: "string \<Rightarrow> runtime \<Rightarrow> (error + bool) \<times> runtime" where
  "setStrategy strategyId r =
     (let (found, r1) =
            (if startsWith strategyId ''wauth-''
             then getOrCreateWAuthStrategy (js_replace ''wauth-'' [] strategyId) r
             else (strategies r strategyId, r))
      in case found of
           Some s \<Rightarrow>
             (case updateState (no_updates\<lparr>u_strategy := Some (Some s)\<rparr>)
                     (r1\<lparr>currentStrategy := Some s\<rparr>) of
                (Some e, r2) \<Rightarrow> (Inl e, r2)
              | (None, r2) \<Rightarrow> (Inr True, r2))
         | None \<Rightarrow> (Inr False, r1))"

definition connect ::
  "backends \<Rightarrow> string list option \<Rightarrow> runtime \<Rightarrow> (error + unit) \<times> runtime" where
  "connect B perms r =
     (case currentStrategy r of
        None \<Rightarrow> (Inl NoStrategySelected, r)
      | Some s \<Rightarrow>
          (case on_connect (B (oid s)) perms of
             Inl e \<Rightarrow> (Inl e, r)
           | Inr u \<Rightarrow>
          (case on_getActiveAddress (B (oid s)) of
             Inl e \<Rightarrow> (Inl e, r)
           | Inr addr \<Rightarrow>
          (case on_getActivePublicKey (B (oid s)) of
             Inl e \<Rightarrow> (Inl e, r)
           | Inr pk \<Rightarrow>
          (case on_getPermissions (B (oid s)) of
             Inl e \<Rightarrow> (Inl e, r)
           | Inr walletPermissions \<Rightarrow>
          (case updateState
                  \<lparr>u_connected = Some True, u_address = Some addr,
                   u_publicKey = Some pk, u_permissions = Some walletPermissions,
                   u_strategy = Some (currentStrategy r)\<rparr> r of
             (Some e, r1) \<Rightarrow> (Inl e, r1)
           | (None, r1) \<Rightarrow>
               (case currentStrategy r1 of
                  None \<Rightarrow> (Inl TypeError, r1)
                | Some s1 \<Rightarrow>
                    (Inr (),
                     cacheAddress addr
                       (cacheStrategy (Some (strategy_id (cls s1))) r1)))))))))"

definition disconnect :: "backends \<Rightarrow> runtime \<Rightarrow> (error + unit) \<times> runtime" where
  "disconnect B r =
     (case currentStrategy r of
        None \<Rightarrow> (Inr (), r)
      | Some s \<Rightarrow>
          (case on_disconnect (B (oid s)) of
             Inl e \<Rightarrow> (Inl e, r)
           | Inr u \<Rightarrow>
               (case updateState
                       \<lparr>u_connected = Some False, u_address = Some None,
                        u_publicKey = Some None, u_permissions = Some [],
                        u_strategy = Some None\<rparr>
                       (r\<lparr>currentStrategy := None\<rparr>) of
                  (Some e, r1) \<Rightarrow> (Inl e, r1)
                | (None, r1) \<Rightarrow> (Inr (), cacheAddress None (cacheStrategy None r1)))))"

subsection \<open>Automatic reconnection\<close>

text \<open>
  The inner \<open>try\<close> block of \<open>autoReconnect\<close>, entered for an identifier that starts
  with \<open>wauth-\<close> after the fixed delay. The result is \<open>True\<close> when the block returns
  \<open>true\<close>; every exception in it is swallowed by its \<open>catch\<close>.
\<close>

definition wauth_probe :: "backends \<Rightarrow> runtime \<Rightarrow> bool \<times> runtime" where
  "wauth_probe B r =
     (case currentStrategy r of
        None \<Rightarrow> (False, r)
      | Some s \<Rightarrow>
          (case on_getActiveAddress (B (oid s)) of
             Inl e \<Rightarrow> (False, r)
           | Inr addr \<Rightarrow>
               if truthy addr
               then (case on_getActivePublicKey (B (oid s)) of
                       Inl e \<Rightarrow> (False, r)
                     | Inr pk \<Rightarrow>
                    (case on_getPermissions (B (oid s)) of
                       Inl e \<Rightarrow> (False, r)
                     | Inr perms \<Rightarrow>
                    (case updateState
                            \<lparr>u_connected = Some True, u_address = Some addr,
                             u_publicKey = Some pk, u_permissions = Some perms,
                             u_strategy = Some (currentStrategy r)\<rparr> r of
                       (Some e, r1) \<Rightarrow> (False, r1)
                     | (None, r1) \<Rightarrow> (True, r1))))
               else (False, r)))"

text \<open>The outer \<open>try\<close> block of \<open>autoReconnect\<close>.\<close>

definition autoReconnect_try ::
  "backends \<Rightarrow> string \<Rightarrow> runtime \<Rightarrow> (error + bool) \<times> runtime" where
  "autoReconnect_try B cachedStrategyId r =
     (case setStrategy cachedStrategyId r of
        (Inl e, r1) \<Rightarrow> (Inl e, r1)
      | (Inr success, r1) \<Rightarrow>
          if \<not> success then (Inl FailedToSetCachedStrategy, r1)
          else (case (if startsWith cachedStrategyId ''wauth-''
                      then wauth_probe B r1 else (False, r1)) of
                  (True, r2) \<Rightarrow> (Inr True, r2)
                | (False, r2) \<Rightarrow>
                    (if (case currentStrategy r2 of
                           None \<Rightarrow> False | Some s \<Rightarrow> has_reconnect (cls s))
                     then (case currentStrategy r2 of
                             None \<Rightarrow> (Inl TypeError, r2)
                           | Some s \<Rightarrow>
                               (case on_reconnect (B (oid s)) of
                                  Inl e \<Rightarrow> (Inl e, r2)
                                | Inr u \<Rightarrow> (Inr True, r2)))
                     else (case connect B None r2 of
                             (Inl e, r3) \<Rightarrow> (Inl e, r3)
                           | (Inr u, r3) \<Rightarrow> (Inr True, r3)))))"

text \<open>
  \<open>autoReconnect\<close>: the first storage read stands before the \<open>try\<close>, so an
  exception of that read is the outcome of the call; \<open>getCachedAddress\<close> has its own
  \<open>catch\<close>. An exception inside the \<open>try\<close> block becomes the result \<open>false\<close>.
\<close>

definition autoReconnect :: "backends \<Rightarrow> runtime \<Rightarrow> (error + bool) \<times> runtime" where
  "autoReconnect B r =
     (case getItem STORAGE_KEYS_STRATEGY (localStorage r) of
        Inl e \<Rightarrow> (Inl e, r)
      | Inr cachedStrategyId \<Rightarrow>
          (let cachedAddress = getCachedAddress r
           in if \<not> truthy cachedStrategyId \<or> \<not> truthy cachedAddress
              then (Inr False, r)
              else (case autoReconnect_try B
                           (case cachedStrategyId of Some v \<Rightarrow> v | None \<Rightarrow> []) r of
                      (Inl e, r1) \<Rightarrow> (Inr False, r1)
                    | (Inr b, r1) \<Rightarrow> (Inr b, r1))))"

subsection \<open>Construction\<close>

definition initializeStrategies :: "runtime \<Rightarrow> runtime" where
  "initializeStrategies r =
     (let (arweaveStrategy, r1) = new_strategy ArweaveWalletStrategy r;
          r2 = r1\<lparr>strategies :=
                  (strategies r1)(strategy_id (cls arweaveStrategy) \<mapsto> arweaveStrategy)\<rparr>;
          (metamaskStrategy, r3) = new_strategy MetaMaskWalletStrategy r2
      in r3\<lparr>strategies :=
              (strategies r3)(strategy_id (cls metamaskStrategy) \<mapsto> metamaskStrategy)\<rparr>)"

definition loadCachedStrategy :: "runtime \<Rightarrow> runtime" where
  "loadCachedStrategy r =
     (case getItem STORAGE_KEYS_STRATEGY (localStorage r) of
        Inl e \<Rightarrow> r
      | Inr cachedStrategyId \<Rightarrow>
          if truthy cachedStrategyId
          then (let cid = (case cachedStrategyId of Some v \<Rightarrow> v | None \<Rightarrow> [])
                in if startsWith cid ''wauth-''
                   then (let (found, r1) =
                               getOrCreateWAuthStrategy (js_replace ''wauth-'' [] cid) r
                         in snd (updateState (no_updates\<lparr>u_strategy := Some found\<rparr>)
                                   (r1\<lparr>currentStrategy := found\<rparr>)))
                   else (case strategies r cid of
                           Some s \<Rightarrow>
                             snd (updateState (no_updates\<lparr>u_strategy := Some (Some s)\<rparr>)
                                    (r\<lparr>currentStrategy := Some s\<rparr>))
                         | None \<Rightarrow> r))
          else r)"

text \<open>
  A new manager in a browser whose storage is \<open>ls\<close>; \<open>cb\<close> is the behaviour of the
  functions that may later be subscribed as observers.
\<close>

definition new_WalletManager :: "storage \<Rightarrow> (nat \<Rightarrow> callback_action list) \<Rightarrow> runtime" where
  "new_WalletManager ls cb =
     loadCachedStrategy
       (initializeStrategies
          \<lparr>strategies = Map.empty, currentStrategy = None, state = 0,
           stateListeners = [],
           objects = (\<lambda>a. disconnected_default), next_object = 1, constructed = 0,
           localStorage = ls, callbacks = cb, notifications = []\<rparr>)"

section \<open>The provider's repair of a connection without an address\<close>


section \<open>Snapshots\<close>

text \<open>
  Assigning top-level fields of the object at reference \<open>a\<close> (the keys present in
  \<open>u\<close>), as a holder of a snapshot may do.
\<close>

definition assign_fields :: "nat \<Rightarrow> updates \<Rightarrow> runtime \<Rightarrow> runtime" where
  "assign_fields a u r = r\<lparr>objects := (objects r)(a := spread (objects r a) u)\<rparr>"

section \<open>Runs of the manager\<close>

text \<open>
  The runtimes that a program can reach: it constructs the manager, calls its public
  operations in any order with any arguments, against backends that answer in any
  way, while the storage and the behaviour of callbacks may change between calls.
\<close>

inductive reachable :: "runtime \<Rightarrow> bool" where
  constructed: "reachable (new_WalletManager ls cb)"
| after_setStrategy: "reachable r \<Longrightarrow> reachable (snd (setStrategy strategyId r))"
| after_connect: "reachable r \<Longrightarrow> reachable (snd (connect B perms r))"
| after_disconnect: "reachable r \<Longrightarrow> reachable (snd (disconnect B r))"
| after_autoReconnect: "reachable r \<Longrightarrow> reachable (snd (autoReconnect B r))"
| after_onStateChange: "reachable r \<Longrightarrow> reachable (onStateChange l r)"
| after_unsubscribe: "reachable r \<Longrightarrow> reachable (unsubscribe l r)"
| after_getState: "reachable r \<Longrightarrow> reachable (snd (getState r))"
| environment: "reachable r \<Longrightarrow> reachable (r\<lparr>localStorage := ls, callbacks := cb\<rparr>)"

text \<open>
  The same operations as values, so that a program is a list of them; \<open>perform\<close>
  keeps the runtime an operation leaves behind and drops its result.
\<close>

datatype operation =
    Op_setStrategy string
  | Op_connect backends "string list option"
  | Op_disconnect backends
  | Op_autoReconnect backends
  | Op_onStateChange nat
  | Op_unsubscribe nat
  | Op_getState
  | Op_environment storage "nat \<Rightarrow> callback_action list"

fun perform :: "operation \<Rightarrow> runtime \<Rightarrow> runtime" where
  "perform (Op_setStrategy strategyId) r = snd (setStrategy strategyId r)"
| "perform (Op_connect B perms) r = snd (connect B perms r)"
| "perform (Op_disconnect B) r = snd (disconnect B r)"
| "perform (Op_autoReconnect B) r = snd (autoReconnect B r)"
| "perform (Op_onStateChange l) r = onStateChange l r"
| "perform (Op_unsubscribe l) r = unsubscribe l r"
| "perform Op_getState r = snd (getState r)"
| "perform (Op_environment ls cb) r = r\<lparr>localStorage := ls, callbacks := cb\<rparr>"

fun perform_all :: "operation list \<Rightarrow> runtime \<Rightarrow> runtime" where
  "perform_all [] r = r"
| "perform_all (x # xs) r = perform_all xs (perform x r)"

text \<open>
  \<open>observers_only r r'\<close>: \<open>r'\<close> differs from \<open>r\<close> at most in the list of observers
  and in the record of notifications.
\<close>

definition observers_only :: "runtime \<Rightarrow> runtime \<Rightarrow> bool" where
  "observers_only r r' =
     (r' = r\<lparr>stateListeners := stateListeners r', notifications := notifications r'\<rparr>)"

section \<open>Normalising a raw signer\<close>

text \<open>
  The values that \<open>createAoSigner\<close> may receive as \<open>unknown\<close>. Functions and objects
  are references. A finite number is given by its value; both zeros are \<open>Finite 0\<close>.
\<close>

datatype jsnumber = NaN | Infinity bool | Finite rat

datatype jsval =
    JSUndefined
  | JSNull
  | JSBoolean bool
  | JSNumber jsnumber
  | JSBigInt int
  | JSString string
  | JSSymbol nat
  | JSFunction nat
  | JSObject nat

datatype jstype =
  T_undefined | T_object | T_boolean | T_number | T_bigint | T_string | T_symbol | T_function

fun typeof :: "jsval \<Rightarrow> jstype" where
  "typeof JSUndefined = T_undefined"
| "typeof JSNull = T_object"
| "typeof (JSBoolean b) = T_boolean"
| "typeof (JSNumber n) = T_number"
| "typeof (JSBigInt i) = T_bigint"
| "typeof (JSString s) = T_string"
| "typeof (JSSymbol y) = T_symbol"
| "typeof (JSFunction f) = T_function"
| "typeof (JSObject ob) = T_object"

fun js_truthy :: "jsval \<Rightarrow> bool" where
  "js_truthy JSUndefined = False"
| "js_truthy JSNull = False"
| "js_truthy (JSBoolean b) = b"
| "js_truthy (JSNumber n) = (n \<noteq> NaN \<and> n \<noteq> Finite 0)"
| "js_truthy (JSBigInt i) = (i \<noteq> 0)"
| "js_truthy (JSString s) = (s \<noteq> [])"
| "js_truthy (JSSymbol y) = True"
| "js_truthy (JSFunction f) = True"
| "js_truthy (JSObject ob) = True"

text \<open>
  \<open>createDataItemSigner\<close> comes from a library outside the repository and is a
  parameter here: given an object it returns a function or throws.
\<close>

definition createAoSigner :: "(nat \<Rightarrow> error + nat) \<Rightarrow> jsval \<Rightarrow> jsval" where
  "createAoSigner createDataItemSigner rawSigner =
     (if \<not> js_truthy rawSigner then JSNull
      else if typeof rawSigner = T_function then rawSigner
      else if typeof rawSigner = T_object \<and> rawSigner \<noteq> JSNull
      then (case rawSigner of
              JSObject ob \<Rightarrow>
                (case createDataItemSigner ob of
                   Inr wrapped \<Rightarrow> JSFunction wrapped
                 | Inl e \<Rightarrow> JSNull)
            | other \<Rightarrow> JSNull)
      else JSNull)"

section \<open>Concrete runs\<close>

definition empty_storage :: storage where
  "empty_storage = \<lparr>items = Map.empty, readable = True, writable = True\<rparr>"

definition blocked_storage :: storage where
  "blocked_storage = \<lparr>items = Map.empty, readable = False, writable = False\<rparr>"

definition full_storage :: storage where
  "full_storage = \<lparr>items = Map.empty, readable = True, writable = False\<rparr>"

definition quiet :: "nat \<Rightarrow> callback_action list" where
  "quiet = (\<lambda>l. [])"

definition wallet :: "string \<Rightarrow> backends" where
  "wallet a =
     (\<lambda>i. \<lparr>on_connect = (\<lambda>p. Inr ()), on_disconnect = Inr (),
           on_getActiveAddress = Inr (Some a), on_getActivePublicKey = Inr (Some ''key''),
           on_getPermissions = Inr [''ACCESS_ADDRESS''], on_reconnect = Inr ()\<rparr>)"


text \<open>A wallet that is connected but refuses to hand out its public key.\<close>

definition locked_wallet :: backends where
  "locked_wallet =
     (\<lambda>i. \<lparr>on_connect = (\<lambda>p. Inr ()), on_disconnect = Inr (),
           on_getActiveAddress = Inr (Some ''addr''),
           on_getActivePublicKey = Inl (BackendError ''locked''),
           on_getPermissions = Inr [], on_reconnect = Inr ()\<rparr>)"

text \<open>A wallet whose \<open>disconnect\<close> throws.\<close>

definition stuck_wallet :: backends where
  "stuck_wallet =
     (\<lambda>i. \<lparr>on_connect = (\<lambda>p. Inr ()), on_disconnect = Inl (BackendError ''busy''),
           on_getActiveAddress = Inr (Some ''addr''),
           on_getActivePublicKey = Inr (Some ''key''),
           on_getPermissions = Inr [], on_reconnect = Inr ()\<rparr>)"

definition fresh_manager :: runtime where
  "fresh_manager = new_WalletManager empty_storage quiet"

definition metamask_selected :: runtime where
  "metamask_selected = snd (setStrategy ''metamask'' fresh_manager)"

definition metamask_connected :: runtime where
  "metamask_connected = snd (connect (wallet ''addr'') None metamask_selected)"


text \<open>
  Three observers, subscribed in the order 1, 2, 3; the second one, when called,
  calls the unsubscribe handle of the first.
\<close>

definition second_removes_first :: "nat \<Rightarrow> callback_action list" where
  "second_removes_first = (\<lambda>l. if l = 2 then [Unsubscribe 1] else [])"

definition three_observers :: runtime where
  "three_observers =
     onStateChange 3 (onStateChange 2 (onStateChange 1
       (new_WalletManager empty_storage second_removes_first)))"

text \<open>The same selection in a browser whose storage rejects every write.\<close>

definition metamask_selected_full :: runtime where
  "metamask_selected_full = snd (setStrategy ''metamask'' (new_WalletManager full_storage quiet))"

text \<open>
  The same three observers, where the third one, when called, calls the unsubscribe
  handle of the second.
\<close>

definition third_removes_second :: "nat \<Rightarrow> callback_action list" where
  "third_removes_second = (\<lambda>l. if l = 3 then [Unsubscribe 2] else [])"

definition three_observers_third :: runtime where
  "three_observers_third =
     onStateChange 3 (onStateChange 2 (onStateChange 1
       (new_WalletManager empty_storage third_removes_second)))"

section \<open>Invariants\<close>

text \<open>A connection state that is connected carries an address.\<close>

definition address_known :: "WalletConnectionState \<Rightarrow> bool" where
  "address_known st = (connected st \<longrightarrow> address st \<noteq> None)"

text \<open>Every backend resolves \<open>getActiveAddress\<close> to a string when it resolves.\<close>

definition resolves_string :: "backends \<Rightarrow> bool" where
  "resolves_string B = (\<forall>i. on_getActiveAddress (B i) \<noteq> Inr None)"

text \<open>The operations that meet only such backends.\<close>

fun typed_operation :: "operation \<Rightarrow> bool" where
  "typed_operation (Op_connect B perms) = resolves_string B"
| "typed_operation (Op_autoReconnect B) = resolves_string B"
| "typed_operation (Op_setStrategy strategyId) = True"
| "typed_operation (Op_disconnect B) = True"
| "typed_operation (Op_onStateChange l) = True"
| "typed_operation (Op_unsubscribe l) = True"
| "typed_operation Op_getState = True"
| "typed_operation (Op_environment ls cb) = True"

text \<open>
  The reference \<open>state\<close> points to an allocated object; a connected state has an
  active strategy; and, where \<open>typed\<close> says that only backends that resolve to a
  string have been met, the state satisfies \<open>address_known\<close>.
\<close>

definition sound :: "bool \<Rightarrow> runtime \<Rightarrow> bool" where
  "sound typed r =
     (state r < next_object r
      \<and> (connected (current_state r) \<longrightarrow> currentStrategy r \<noteq> None)
      \<and> (typed \<longrightarrow> address_known (current_state r)))"

text \<open>
  \<open>detached a r\<close>: the reference \<open>a\<close> is allocated and is not the manager's state
  object.
\<close>

definition detached :: "nat \<Rightarrow> runtime \<Rightarrow> bool" where
  "detached a r = (a \<noteq> state r \<and> a < next_object r)"

text \<open>
  \<open>grows r r'\<close>: from \<open>r\<close> to \<open>r'\<close> the registry has kept every entry, no object
  reference has been given back, and the state reference is the old one or a new one.
\<close>

definition grows :: "runtime \<Rightarrow> runtime \<Rightarrow> bool" where
  "grows r r' = (strategies r \<subseteq>\<^sub>m strategies r'
     \<and> next_object r \<le> next_object r'
     \<and> (state r' = state r \<or> next_object r \<le> state r'))"

section \<open>Basic facts\<close>

lemma startsWith_take: "startsWith s p \<Longrightarrow> take (length p) s = p"
  by (induction s p rule: startsWith.induct) auto

lemma startsWith_append: "startsWith (p @ s) p"
  by (induction p) auto

lemma js_replace_prefix: "startsWith s p \<Longrightarrow> p @ js_replace p [] s = s"
proof -
  assume h: "startsWith s p"
  then have "js_replace p [] s = drop (length p) s" by (subst js_replace.simps) simp
  moreover have "take (length p) s @ drop (length p) s = s" by simp
  ultimately show ?thesis using startsWith_take [OF h] by simp
qed

lemma observers_only_refl: "observers_only r r"
  by (simp add: observers_only_def)

lemma observers_only_trans:
  "observers_only r r1 \<Longrightarrow> observers_only r1 r2 \<Longrightarrow> observers_only r r2"
  unfolding observers_only_def
  by (metis (no_types, lifting) runtime.surjective runtime.update_convs(4,10) runtime.select_convs)

lemma unsubscribe_observers_only: "observers_only r (unsubscribe l r)"
  by (simp add: observers_only_def unsubscribe_def Let_def)

lemma run_callback_observers_only:
  "run_callback acts r = (e, r') \<Longrightarrow> observers_only r r'"
proof (induction acts r arbitrary: e r' rule: run_callback.induct)
  case (1 r)
  then show ?case by (simp add: observers_only_refl)
next
  case (2 l acts r)
  then show ?case
    using observers_only_trans [OF unsubscribe_observers_only] by simp
next
  case (3 e acts r)
  then show ?case by (auto simp add: observers_only_refl)
qed


lemma call_listener_observers_only:
  "call_listener l r = (e, r') \<Longrightarrow> observers_only r r'"
proof -
  assume h: "call_listener l r = (e, r')"
  have a: "observers_only r (r\<lparr>notifications := notifications r @ [(l, current_state r)]\<rparr>)"
    by (simp add: observers_only_def)
  from h have "observers_only (r\<lparr>notifications := notifications r @ [(l, current_state r)]\<rparr>) r'"
    unfolding call_listener_def by (rule run_callback_observers_only)
  with a show ?thesis by (rule observers_only_trans)
qed

lemma forEach_listeners_observers_only:
  "forEach_listeners n k r = (e, r') \<Longrightarrow> observers_only r r'"
proof (induction n arbitrary: k r)
  case 0
  then show ?case by (simp add: observers_only_refl)
next
  case (Suc n)
  show ?case
  proof (cases "k < length (stateListeners r)")
    case False
    with Suc show ?thesis by simp
  next
    case True
    obtain e1 r1 where c: "call_listener (stateListeners r ! k) r = (e1, r1)"
      by (cases "call_listener (stateListeners r ! k) r") auto
    have o1: "observers_only r r1" using c by (rule call_listener_observers_only)
    show ?thesis
    proof (cases e1)
      case None
      with Suc.prems True c have "forEach_listeners n (Suc k) r1 = (e, r')" by simp
      then have "observers_only r1 r'" by (rule Suc.IH)
      with o1 show ?thesis by (rule observers_only_trans)
    next
      case (Some x)
      with Suc.prems True c have "r' = r1" by simp
      with o1 show ?thesis by simp
    qed
  qed
qed

text \<open>What \<open>updateState\<close> changes: a new state object, and the observers' side.\<close>

lemma updateState_result:
  assumes "updateState u r = (e, r')"
  shows "r' = r\<lparr>objects := (objects r)(next_object r := spread (current_state r) u),
                 state := next_object r, next_object := Suc (next_object r),
                 stateListeners := stateListeners r', notifications := notifications r'\<rparr>"
proof -
  let ?r1 = "r\<lparr>objects := (objects r)(next_object r := spread (current_state r) u),
                 state := next_object r, next_object := Suc (next_object r)\<rparr>"
  from assms have "forEach_listeners (length (stateListeners ?r1)) 0 ?r1 = (e, r')"
    by (simp add: updateState_def Let_def)
  then have "observers_only ?r1 r'" by (rule forEach_listeners_observers_only)
  then show ?thesis by (simp add: observers_only_def)
qed

lemma updateState_fields:
  assumes "updateState u r = (e, r')"
  shows "current_state r' = spread (current_state r) u"
    and "currentStrategy r' = currentStrategy r"
    and "strategies r' = strategies r"
    and "localStorage r' = localStorage r"
    and "constructed r' = constructed r"
    and "callbacks r' = callbacks r"
    and "state r' = next_object r"
    and "next_object r' = Suc (next_object r)"
proof -
  note eq = updateState_result [OF assms]
  show "current_state r' = spread (current_state r) u"
    by (subst eq) (simp add: current_state_def)
  show "currentStrategy r' = currentStrategy r" by (subst eq) simp
  show "strategies r' = strategies r" by (subst eq) simp
  show "localStorage r' = localStorage r" by (subst eq) simp
  show "constructed r' = constructed r" by (subst eq) simp
  show "callbacks r' = callbacks r" by (subst eq) simp
  show "state r' = next_object r" by (subst eq) simp
  show "next_object r' = Suc (next_object r)" by (subst eq) simp
qed

lemma fresh_manager_value:
  "fresh_manager =
     \<lparr>strategies = [''arweave-native'' \<mapsto> \<lparr>oid = 0, cls = ArweaveWalletStrategy\<rparr>,
                     ''metamask'' \<mapsto> \<lparr>oid = 1, cls = MetaMaskWalletStrategy\<rparr>],
      currentStrategy = None, state = 0, stateListeners = [],
      objects = (\<lambda>a. disconnected_default), next_object = 1, constructed = 2,
      localStorage = empty_storage, callbacks = quiet, notifications = []\<rparr>"
  by (simp add: fresh_manager_def new_WalletManager_def initializeStrategies_def
      loadCachedStrategy_def new_strategy_def getItem_def empty_storage_def
      STORAGE_KEYS_STRATEGY_def)

lemma metamask_selected_value:
  "metamask_selected =
     \<lparr>strategies = [''arweave-native'' \<mapsto> \<lparr>oid = 0, cls = ArweaveWalletStrategy\<rparr>,
                     ''metamask'' \<mapsto> \<lparr>oid = 1, cls = MetaMaskWalletStrategy\<rparr>],
      currentStrategy = Some \<lparr>oid = 1, cls = MetaMaskWalletStrategy\<rparr>,
      state = 1, stateListeners = [],
      objects = (\<lambda>a. disconnected_default)
        (1 := disconnected_default\<lparr>strategy := Some \<lparr>oid = 1, cls = MetaMaskWalletStrategy\<rparr>\<rparr>),
      next_object = 2, constructed = 2,
      localStorage = empty_storage, callbacks = quiet, notifications = []\<rparr>"
  by (simp add: metamask_selected_def fresh_manager_value setStrategy_def updateState_def
      current_state_def spread_def no_updates_def disconnected_default_def)

lemma metamask_connected_value:
  "metamask_connected =
     \<lparr>strategies = [''arweave-native'' \<mapsto> \<lparr>oid = 0, cls = ArweaveWalletStrategy\<rparr>,
                     ''metamask'' \<mapsto> \<lparr>oid = 1, cls = MetaMaskWalletStrategy\<rparr>],
      currentStrategy = Some \<lparr>oid = 1, cls = MetaMaskWalletStrategy\<rparr>,
      state = 2, stateListeners = [],
      objects = (\<lambda>a. disconnected_default)
        (1 := disconnected_default\<lparr>strategy := Some \<lparr>oid = 1, cls = MetaMaskWalletStrategy\<rparr>\<rparr>,
         2 := \<lparr>connected = True, address = Some ''addr'', publicKey = Some ''key'',
                permissions = [''ACCESS_ADDRESS''],
                strategy = Some \<lparr>oid = 1, cls = MetaMaskWalletStrategy\<rparr>\<rparr>),
      next_object = 3, constructed = 2,
      localStorage = \<lparr>items = [STORAGE_KEYS_STRATEGY \<mapsto> ''metamask'',
                                 STORAGE_KEYS_ADDRESS \<mapsto> ''addr''],
                        readable = True, writable = True\<rparr>,
      callbacks = quiet, notifications = []\<rparr>"
  by (simp add: metamask_connected_def metamask_selected_value connect_def wallet_def
      updateState_def current_state_def spread_def cacheStrategy_def cacheAddress_def
      setItem_def empty_storage_def)

lemma metamask_connected_reachable: "reachable metamask_connected"
  unfolding metamask_connected_def metamask_selected_def fresh_manager_def
  by (intro reachable.after_connect reachable.after_setStrategy reachable.constructed)

lemma metamask_selected_current:
  "currentStrategy metamask_selected = Some \<lparr>oid = 1, cls = MetaMaskWalletStrategy\<rparr>"
  by (simp add: metamask_selected_value)

section \<open>The invariant of the connection state\<close>

lemma sound_cacheStrategy [simp]: "sound T (cacheStrategy x r) = sound T r"
  by (simp add: cacheStrategy_def sound_def current_state_def split: sum.splits)

lemma sound_cacheAddress [simp]: "sound T (cacheAddress x r) = sound T r"
  by (simp add: cacheAddress_def sound_def current_state_def split: sum.splits)

lemma getOrCreateWAuthStrategy_result:
  assumes "getOrCreateWAuthStrategy p r = (found, r1)"
  shows "r1 = r\<lparr>strategies := strategies r1, constructed := constructed r1\<rparr>"
proof (cases "strategies r (''wauth-'' @ p) = None")
  case True
  with assms show ?thesis
    by (auto simp add: getOrCreateWAuthStrategy_def Let_def new_strategy_def)
next
  case False
  with assms show ?thesis
    by (auto simp add: getOrCreateWAuthStrategy_def Let_def)
qed

lemma sound_getOrCreate:
  assumes "getOrCreateWAuthStrategy p r = (found, r1)"
  shows "sound T r1 = sound T r"
  by (subst getOrCreateWAuthStrategy_result [OF assms]) (simp add: sound_def current_state_def)

lemma updateState_sound:
  assumes "updateState u r = (e, r')"
    and "connected (spread (current_state r) u) \<longrightarrow> currentStrategy r \<noteq> None"
    and "T \<longrightarrow> address_known (spread (current_state r) u)"
  shows "sound T r'"
  using assms updateState_fields(1,2,7,8) [OF assms(1)] by (simp add: sound_def)

lemma spread_strategy:
  "connected (spread st (no_updates\<lparr>u_strategy := Some x\<rparr>)) = connected st"
  "address_known (spread st (no_updates\<lparr>u_strategy := Some x\<rparr>)) = address_known st"
  by (simp_all add: address_known_def spread_def no_updates_def)

lemma spread_connected:
  "connected (spread st
      \<lparr>u_connected = Some True, u_address = Some a, u_publicKey = Some pk,
       u_permissions = Some ps, u_strategy = Some s\<rparr>)"
  "address_known (spread st
      \<lparr>u_connected = Some True, u_address = Some a, u_publicKey = Some pk,
       u_permissions = Some ps, u_strategy = Some s\<rparr>) = (a \<noteq> None)"
  by (simp_all add: address_known_def spread_def)

lemma spread_disconnected:
  "spread st
      \<lparr>u_connected = Some False, u_address = Some None, u_publicKey = Some None,
       u_permissions = Some [], u_strategy = Some None\<rparr> = disconnected_default"
  by (simp add: spread_def disconnected_default_def)

lemma setStrategy_sound:
  assumes "setStrategy sid r = (res, r')" and "sound T r"
  shows "sound T r'"
proof -
  obtain found r1 where f: "(if startsWith sid ''wauth-''
             then getOrCreateWAuthStrategy (js_replace ''wauth-'' [] sid) r
             else (strategies r sid, r)) = (found, r1)"
    by (metis surj_pair)
  have c1: "sound T r1"
    using f sound_getOrCreate assms(2) by (auto split: if_splits)
  show ?thesis
  proof (cases found)
    case None
    with f c1 assms show ?thesis by (simp add: setStrategy_def)
  next
    case (Some s)
    obtain e r2 where u: "updateState (no_updates\<lparr>u_strategy := Some (Some s)\<rparr>)
                     (r1\<lparr>currentStrategy := Some s\<rparr>) = (e, r2)"
      by (metis surj_pair)
    have "sound T r2"
      using c1 by (intro updateState_sound [OF u])
        (simp_all add: spread_strategy sound_def current_state_def)
    with f Some u assms(1) show ?thesis
      by (auto simp add: setStrategy_def split: option.splits)
  qed
qed

lemma connect_sound:
  assumes "connect B perms r = (res, r')" and "sound T r" and "T \<longrightarrow> resolves_string B"
  shows "sound T r'"
proof (cases "currentStrategy r")
  case None
  with assms show ?thesis by (simp add: connect_def)
next
  case (Some s)
  have up: "\<And>a pk ps e r1. on_getActiveAddress (B (oid s)) = Inr a \<Longrightarrow> updateState
      \<lparr>u_connected = Some True, u_address = Some a, u_publicKey = Some pk,
       u_permissions = Some ps, u_strategy = Some (Some s)\<rparr> r = (e, r1)
      \<Longrightarrow> sound T r1"
  proof -
    fix a pk ps e r1
    assume a: "on_getActiveAddress (B (oid s)) = Inr a"
      and u: "updateState
      \<lparr>u_connected = Some True, u_address = Some a, u_publicKey = Some pk,
       u_permissions = Some ps, u_strategy = Some (Some s)\<rparr> r = (e, r1)"
    have "T \<longrightarrow> a \<noteq> None"
    proof
      assume T
      with assms(3) have "on_getActiveAddress (B (oid s)) \<noteq> Inr None"
        by (simp add: resolves_string_def)
      with a show "a \<noteq> None" by auto
    qed
    then show "sound T r1"
      using Some by (intro updateState_sound [OF u]) (simp_all add: spread_connected)
  qed
  show ?thesis
    using assms(1,2) Some up
    by (auto simp add: connect_def split: option.splits sum.splits prod.splits)
qed

lemma disconnect_sound:
  assumes "disconnect B r = (res, r')" and "sound T r"
  shows "sound T r'"
proof -
  have up: "\<And>e r1 x. updateState
      \<lparr>u_connected = Some False, u_address = Some None, u_publicKey = Some None,
       u_permissions = Some [], u_strategy = Some None\<rparr> (r\<lparr>currentStrategy := x\<rparr>) = (e, r1)
      \<Longrightarrow> sound T r1"
    by (erule updateState_sound)
       (simp_all add: spread_disconnected disconnected_default_def address_known_def)
  show ?thesis
    using assms up
    by (auto simp add: disconnect_def split: option.splits sum.splits prod.splits)
qed

lemma wauth_probe_sound:
  assumes "wauth_probe B r = (b, r')" and "sound T r"
  shows "sound T r'"
proof (cases "currentStrategy r")
  case None
  with assms show ?thesis by (simp add: wauth_probe_def)
next
  case (Some s)
  have up: "\<And>a pk ps e r1. truthy a \<Longrightarrow> updateState
      \<lparr>u_connected = Some True, u_address = Some a, u_publicKey = Some pk,
       u_permissions = Some ps, u_strategy = Some (Some s)\<rparr> r = (e, r1)
      \<Longrightarrow> sound T r1"
  proof -
    fix a pk ps e r1
    assume a: "truthy a"
      and u: "updateState
      \<lparr>u_connected = Some True, u_address = Some a, u_publicKey = Some pk,
       u_permissions = Some ps, u_strategy = Some (Some s)\<rparr> r = (e, r1)"
    from a have "a \<noteq> None" by (cases a) simp_all
    then show "sound T r1"
      using Some by (intro updateState_sound [OF u]) (simp_all add: spread_connected)
  qed
  show ?thesis
    using assms Some up
    by (auto simp add: wauth_probe_def split: option.splits sum.splits prod.splits if_splits)
qed

lemma autoReconnect_try_sound:
  assumes "autoReconnect_try B cid r = (res, r')" and "sound T r"
    and "T \<longrightarrow> resolves_string B"
  shows "sound T r'"
proof -
  obtain res1 r1 where s: "setStrategy cid r = (res1, r1)" by (metis surj_pair)
  have k1: "sound T r1" using setStrategy_sound [OF s assms(2)] .
  obtain b r2 where p: "(if startsWith cid ''wauth-'' then wauth_probe B r1 else (False, r1))
      = (b, r2)" by (metis surj_pair)
  have k2: "sound T r2"
    using wauth_probe_sound [OF _ k1] p k1 by (auto split: if_splits)
  obtain res3 r3 where c: "connect B None r2 = (res3, r3)" by (metis surj_pair)
  have k3: "sound T r3" using connect_sound [OF c k2 assms(3)] .
  show ?thesis
    using assms(1) s k1 p k2 c k3 unfolding autoReconnect_try_def
    by (auto split: option.splits sum.splits prod.splits bool.splits if_splits)
qed

lemma autoReconnect_sound:
  assumes "autoReconnect B r = (res, r')" and "sound T r" and "T \<longrightarrow> resolves_string B"
  shows "sound T r'"
  using assms(1,2) autoReconnect_try_sound [OF _ assms(2,3)]
  by (auto simp add: autoReconnect_def Let_def split: sum.splits prod.splits if_splits)

lemma loadCachedStrategy_sound:
  assumes "sound T r" and "\<not> connected (current_state r)"
  shows "sound T (loadCachedStrategy r)"
proof -
  have up: "\<And>r x y. sound T r \<Longrightarrow> \<not> connected (current_state r) \<Longrightarrow>
     sound T (snd (updateState (no_updates\<lparr>u_strategy := Some x\<rparr>)
        (r\<lparr>currentStrategy := y\<rparr>)))"
  proof -
    fix r x y assume a: "sound T r" and n: "\<not> connected (current_state r)"
    obtain e r2 where u: "updateState (no_updates\<lparr>u_strategy := Some x\<rparr>)
        (r\<lparr>currentStrategy := y\<rparr>) = (e, r2)" by (metis surj_pair)
    have "sound T r2"
      using a n by (intro updateState_sound [OF u])
        (simp_all add: spread_strategy sound_def current_state_def)
    with u show "sound T (snd (updateState (no_updates\<lparr>u_strategy := Some x\<rparr>)
        (r\<lparr>currentStrategy := y\<rparr>)))" by simp
  qed
  have ge: "\<And>p found r1. getOrCreateWAuthStrategy p r = (found, r1) \<Longrightarrow>
      sound T r1 \<and> \<not> connected (current_state r1)"
  proof -
    fix p found r1 assume g: "getOrCreateWAuthStrategy p r = (found, r1)"
    have "current_state r1 = current_state r"
      by (subst getOrCreateWAuthStrategy_result [OF g]) (simp add: current_state_def)
    with g assms sound_getOrCreate show "sound T r1 \<and> \<not> connected (current_state r1)"
      by simp
  qed
  show ?thesis
    using up assms ge
    by (auto simp add: loadCachedStrategy_def Let_def
        split: sum.splits option.splits prod.splits)
qed

lemma new_WalletManager_sound: "sound T (new_WalletManager ls cb)"
proof -
  let ?r0 = "initializeStrategies
          \<lparr>strategies = Map.empty, currentStrategy = None, state = 0,
           stateListeners = [],
           objects = (\<lambda>a. disconnected_default), next_object = 1, constructed = 0,
           localStorage = ls, callbacks = cb, notifications = []\<rparr>"
  have "sound T ?r0" "\<not> connected (current_state ?r0)"
    by (simp_all add: initializeStrategies_def new_strategy_def current_state_def
        address_known_def disconnected_default_def sound_def)
  then show ?thesis
    unfolding new_WalletManager_def by (rule loadCachedStrategy_sound)
qed

lemma perform_sound:
  assumes "sound T r" and "T \<longrightarrow> typed_operation x"
  shows "sound T (perform x r)"
proof (cases x)
  case (Op_setStrategy sid)
  then show ?thesis using setStrategy_sound assms(1) by (metis perform.simps(1) prod.collapse)
next
  case (Op_connect B perms)
  with assms(2) have "T \<longrightarrow> resolves_string B" by simp
  then show ?thesis
    using Op_connect connect_sound assms(1) by (metis perform.simps(2) prod.collapse)
next
  case (Op_disconnect B)
  then show ?thesis using disconnect_sound assms(1) by (metis perform.simps(3) prod.collapse)
next
  case (Op_autoReconnect B)
  with assms(2) have "T \<longrightarrow> resolves_string B" by simp
  then show ?thesis
    using Op_autoReconnect autoReconnect_sound assms(1)
    by (metis perform.simps(4) prod.collapse)
next
  case (Op_onStateChange l)
  with assms(1) show ?thesis by (simp add: onStateChange_def current_state_def sound_def)
next
  case (Op_unsubscribe l)
  with assms(1) show ?thesis
    by (simp add: unsubscribe_def Let_def current_state_def sound_def)
next
  case Op_getState
  with assms(1) show ?thesis by (simp add: getState_def current_state_def sound_def)
next
  case (Op_environment ls cb)
  with assms(1) show ?thesis by (simp add: current_state_def sound_def)
qed


lemma reachable_sound: "reachable r \<Longrightarrow> sound False r"
proof (induction rule: reachable.induct)
  case (constructed ls cb)
  show ?case by (rule new_WalletManager_sound)
next
  case (after_setStrategy r strategyId)
  then show ?case using perform_sound [of False r "Op_setStrategy strategyId"] by simp
next
  case (after_connect r B perms)
  then show ?case using perform_sound [of False r "Op_connect B perms"] by simp
next
  case (after_disconnect r B)
  then show ?case using perform_sound [of False r "Op_disconnect B"] by simp
next
  case (after_autoReconnect r B)
  then show ?case using perform_sound [of False r "Op_autoReconnect B"] by simp
next
  case (after_onStateChange r l)
  then show ?case using perform_sound [of False r "Op_onStateChange l"] by simp
next
  case (after_unsubscribe r l)
  then show ?case using perform_sound [of False r "Op_unsubscribe l"] by simp
next
  case (after_getState r)
  then show ?case using perform_sound [of False r Op_getState] by simp
next
  case (environment r cb ls)
  then show ?case using perform_sound [of False r "Op_environment ls cb"] by simp
qed

lemma cache_keeps_manager:
  "currentStrategy (cacheAddress x (cacheStrategy y r)) = currentStrategy r"
  "current_state (cacheAddress x (cacheStrategy y r)) = current_state r"
  by (simp_all add: cacheAddress_def cacheStrategy_def current_state_def split: sum.splits)






section \<open>Failure of connect\<close>

text \<open>
  Claim C2. When a step of \<open>connect\<close> fails, that is when \<open>connect\<close>,
  \<open>getActiveAddress\<close>, \<open>getActivePublicKey\<close> or \<open>getPermissions\<close> of the active
  strategy throws after the steps before it have returned, then \<open>connect\<close> ends with
  the very error that was thrown and leaves everything as it was: the connection
  state, the active strategy, the observers, and the storage (nothing is cached).
\<close>

theorem connect_failure_isolated:
  assumes "currentStrategy r = Some s"
    and "on_connect (B (oid s)) perms = Inl e
       \<or> on_connect (B (oid s)) perms = Inr () \<and> on_getActiveAddress (B (oid s)) = Inl e
       \<or> on_connect (B (oid s)) perms = Inr () \<and> on_getActiveAddress (B (oid s)) = Inr a
           \<and> on_getActivePublicKey (B (oid s)) = Inl e
       \<or> on_connect (B (oid s)) perms = Inr () \<and> on_getActiveAddress (B (oid s)) = Inr a
           \<and> on_getActivePublicKey (B (oid s)) = Inr k
           \<and> on_getPermissions (B (oid s)) = Inl e"
  shows "connect B perms r = (Inl e, r)"
  using assms by (auto simp add: connect_def)

theorem connect_failure_isolated_witness:
  "currentStrategy metamask_selected = Some \<lparr>oid = 1, cls = MetaMaskWalletStrategy\<rparr>
   \<and> on_getActivePublicKey (locked_wallet 1) = Inl (BackendError ''locked'')
   \<and> connect locked_wallet None metamask_selected
       = (Inl (BackendError ''locked''), metamask_selected)"
  using connect_failure_isolated [of metamask_selected
      "\<lparr>oid = 1, cls = MetaMaskWalletStrategy\<rparr>" locked_wallet None
      "BackendError ''locked''" "Some ''addr''"]
  by (simp add: metamask_selected_current locked_wallet_def)

section \<open>Failure isolation of autoReconnect\<close>

text \<open>
  When the storage can be read, \<open>autoReconnect\<close> ends with a boolean whatever the
  cache holds and whatever the backends and the observers do.
\<close>

lemma autoReconnect_readable:
  "readable (localStorage r) \<Longrightarrow> \<exists>b. fst (autoReconnect B r) = Inr b"
  by (auto simp add: autoReconnect_def getItem_def Let_def split: prod.splits sum.splits)

text \<open>
  Claim C4 says that \<open>autoReconnect\<close> never throws, also when reading the storage
  throws. In a browser whose storage cannot be read, the read of the cached strategy
  identifier, which stands before the \<open>try\<close> block, throws, and \<open>autoReconnect\<close>
  ends with that error instead of \<open>false\<close>.
\<close>

theorem autoReconnect_blocked_storage:
  "fst (autoReconnect (wallet ''addr'') (new_WalletManager blocked_storage quiet))
     = Inl StorageError"
  by (simp add: autoReconnect_def new_WalletManager_def initializeStrategies_def
      loadCachedStrategy_def new_strategy_def getItem_def blocked_storage_def)

theorem autoReconnect_blocked_storage_witness:
  "getItem STORAGE_KEYS_STRATEGY (localStorage (new_WalletManager blocked_storage quiet))
     = Inl StorageError
   \<and> fst (autoReconnect (wallet ''addr'') (new_WalletManager blocked_storage quiet))
     = Inl StorageError"
  using autoReconnect_blocked_storage
  by (simp add: new_WalletManager_def initializeStrategies_def
      loadCachedStrategy_def new_strategy_def getItem_def blocked_storage_def)

section \<open>The session cache\<close>

lemma strategy_id_not_empty: "strategy_id c \<noteq> []"
  by (cases c) simp_all

lemma storage_keys_distinct: "STORAGE_KEYS_STRATEGY \<noteq> STORAGE_KEYS_ADDRESS"
  by (simp add: STORAGE_KEYS_STRATEGY_def STORAGE_KEYS_ADDRESS_def)

lemma cache_cleared:
  assumes "writable (localStorage r)"
  shows "items (localStorage (cacheAddress None (cacheStrategy None r))) STORAGE_KEYS_STRATEGY = None"
    and "items (localStorage (cacheAddress None (cacheStrategy None r))) STORAGE_KEYS_ADDRESS = None"
  using assms by (simp_all add: cacheAddress_def cacheStrategy_def removeItem_def)

lemma cache_written:
  assumes "writable (localStorage r)" and "sid \<noteq> []"
  shows "items (localStorage (cacheAddress a (cacheStrategy (Some sid) r)))
           STORAGE_KEYS_STRATEGY = Some sid"
    and "items (localStorage (cacheAddress a (cacheStrategy (Some sid) r)))
           STORAGE_KEYS_ADDRESS = (if truthy a then a else None)"
  using assms storage_keys_distinct
  by (cases a; simp add: cacheAddress_def cacheStrategy_def removeItem_def setItem_def)+

lemma metamask_selected_full_value:
  "metamask_selected_full =
     \<lparr>strategies = [''arweave-native'' \<mapsto> \<lparr>oid = 0, cls = ArweaveWalletStrategy\<rparr>,
                     ''metamask'' \<mapsto> \<lparr>oid = 1, cls = MetaMaskWalletStrategy\<rparr>],
      currentStrategy = Some \<lparr>oid = 1, cls = MetaMaskWalletStrategy\<rparr>,
      state = 1, stateListeners = [],
      objects = (\<lambda>a. disconnected_default)
        (1 := disconnected_default\<lparr>strategy := Some \<lparr>oid = 1, cls = MetaMaskWalletStrategy\<rparr>\<rparr>),
      next_object = 2, constructed = 2,
      localStorage = full_storage, callbacks = quiet, notifications = []\<rparr>"
  by (simp add: metamask_selected_full_def new_WalletManager_def initializeStrategies_def
      loadCachedStrategy_def new_strategy_def getItem_def full_storage_def
      STORAGE_KEYS_STRATEGY_def setStrategy_def updateState_def
      current_state_def spread_def no_updates_def disconnected_default_def)

section \<open>Disconnecting\<close>

text \<open>
  Claim C3 says that \<open>disconnect\<close> resets the manager and clears the cache even when
  the strategy's own \<open>disconnect\<close> throws. It does not: with a connected MetaMask
  session and a backend whose \<open>disconnect\<close> throws, the call ends with that error and
  the active strategy, the connected state and both cache entries are still there.
\<close>

theorem disconnect_stuck_wallet:
  "fst (disconnect stuck_wallet metamask_connected) = Inl (BackendError ''busy'')
   \<and> currentStrategy (snd (disconnect stuck_wallet metamask_connected))
       = Some \<lparr>oid = 1, cls = MetaMaskWalletStrategy\<rparr>
   \<and> connected (current_state (snd (disconnect stuck_wallet metamask_connected)))
   \<and> items (localStorage (snd (disconnect stuck_wallet metamask_connected)))
        STORAGE_KEYS_STRATEGY = Some ''metamask''
   \<and> items (localStorage (snd (disconnect stuck_wallet metamask_connected)))
        STORAGE_KEYS_ADDRESS = Some ''addr''"
  using storage_keys_distinct
  by (simp add: metamask_connected_value disconnect_def stuck_wallet_def current_state_def)

text \<open>
  Claim C3, amended. With an active strategy: when the strategy's \<open>disconnect\<close>
  throws, \<open>disconnect\<close> of the manager ends with that error and changes nothing;
  when it returns, the active strategy is cleared and the connection state is the
  disconnected default, and if moreover the call completes (no observer throws) and
  the storage accepts writes, both cache entries are absent afterwards.
\<close>

theorem disconnect_outcomes:
  assumes "currentStrategy r = Some s"
  shows "(on_disconnect (B (oid s)) = Inl e \<longrightarrow> disconnect B r = (Inl e, r))
       \<and> (on_disconnect (B (oid s)) = Inr () \<longrightarrow>
            currentStrategy (snd (disconnect B r)) = None
          \<and> current_state (snd (disconnect B r)) = disconnected_default
          \<and> (fst (disconnect B r) = Inr () \<and> writable (localStorage r) \<longrightarrow>
               items (localStorage (snd (disconnect B r))) STORAGE_KEYS_STRATEGY = None
             \<and> items (localStorage (snd (disconnect B r))) STORAGE_KEYS_ADDRESS = None))"
proof (intro conjI impI)
  assume "on_disconnect (B (oid s)) = Inl e"
  with assms show "disconnect B r = (Inl e, r)" by (simp add: disconnect_def)
next
  let ?u = "\<lparr>u_connected = Some False, u_address = Some None, u_publicKey = Some None,
             u_permissions = Some [], u_strategy = Some None\<rparr>"
  obtain x r1 where u: "updateState ?u (r\<lparr>currentStrategy := None\<rparr>) = (x, r1)"
    by (metis surj_pair)
  note f = updateState_fields [OF u]
  have st: "current_state r1 = disconnected_default"
    by (simp add: f(1) spread_def disconnected_default_def)
  have cs: "currentStrategy r1 = None" by (simp add: f(2))
  have ls: "localStorage r1 = localStorage r" by (simp add: f(4))
  assume ok: "on_disconnect (B (oid s)) = Inr ()"
  have d: "disconnect B r =
      (case x of Some e' \<Rightarrow> (Inl e', r1)
       | None \<Rightarrow> (Inr (), cacheAddress None (cacheStrategy None r1)))"
    using assms ok u by (simp add: disconnect_def split: option.splits)
  show "currentStrategy (snd (disconnect B r)) = None"
    using d cs by (simp add: cache_keeps_manager split: option.splits)
  show "current_state (snd (disconnect B r)) = disconnected_default"
    using d st by (simp add: cache_keeps_manager split: option.splits)
  assume c: "fst (disconnect B r) = Inr () \<and> writable (localStorage r)"
  with d have x: "x = None" by (auto split: option.splits)
  from c ls have w: "writable (localStorage r1)" by simp
  show "items (localStorage (snd (disconnect B r))) STORAGE_KEYS_STRATEGY = None"
    using d x cache_cleared(1) [OF w] by simp
  show "items (localStorage (snd (disconnect B r))) STORAGE_KEYS_ADDRESS = None"
    using d x cache_cleared(2) [OF w] by simp
qed

theorem disconnect_outcomes_witness:
  "currentStrategy metamask_connected = Some \<lparr>oid = 1, cls = MetaMaskWalletStrategy\<rparr>
   \<and> on_disconnect (stuck_wallet 1) = Inl (BackendError ''busy'')
   \<and> disconnect stuck_wallet metamask_connected
        = (Inl (BackendError ''busy''), metamask_connected)
   \<and> on_disconnect (wallet ''addr'' 1) = Inr ()
   \<and> fst (disconnect (wallet ''addr'') metamask_connected) = Inr ()
   \<and> writable (localStorage metamask_connected)
   \<and> currentStrategy (snd (disconnect (wallet ''addr'') metamask_connected)) = None
   \<and> current_state (snd (disconnect (wallet ''addr'') metamask_connected))
        = disconnected_default
   \<and> items (localStorage (snd (disconnect (wallet ''addr'') metamask_connected)))
        STORAGE_KEYS_STRATEGY = None
   \<and> items (localStorage (snd (disconnect (wallet ''addr'') metamask_connected)))
        STORAGE_KEYS_ADDRESS = None"
proof -
  have c: "currentStrategy metamask_connected = Some \<lparr>oid = 1, cls = MetaMaskWalletStrategy\<rparr>"
    by (simp add: metamask_connected_value)
  have s: "on_disconnect (stuck_wallet (oid \<lparr>oid = 1, cls = MetaMaskWalletStrategy\<rparr>))
      = Inl (BackendError ''busy'')"
    by (simp add: stuck_wallet_def)
  have w: "on_disconnect (wallet ''addr'' (oid \<lparr>oid = 1, cls = MetaMaskWalletStrategy\<rparr>))
      = Inr ()"
    by (simp add: wallet_def)
  have f: "fst (disconnect (wallet ''addr'') metamask_connected) = Inr ()"
    by (simp add: metamask_connected_value disconnect_def wallet_def updateState_def)
  have wr: "writable (localStorage metamask_connected)"
    by (simp add: metamask_connected_value)
  note t1 = disconnect_outcomes [OF c, of stuck_wallet "BackendError ''busy''"]
  note t2 = disconnect_outcomes [OF c, of "wallet ''addr''"]
  from t1 s have a: "disconnect stuck_wallet metamask_connected
        = (Inl (BackendError ''busy''), metamask_connected)" by blast
  from t2 w f wr have b:
    "currentStrategy (snd (disconnect (wallet ''addr'') metamask_connected)) = None"
    "current_state (snd (disconnect (wallet ''addr'') metamask_connected))
        = disconnected_default"
    "items (localStorage (snd (disconnect (wallet ''addr'') metamask_connected)))
        STORAGE_KEYS_STRATEGY = None"
    "items (localStorage (snd (disconnect (wallet ''addr'') metamask_connected)))
        STORAGE_KEYS_ADDRESS = None"
    by blast+
  from c s w f wr a b show ?thesis by simp
qed

section \<open>Round trip through the cache\<close>

text \<open>
  Claim C5 says that after every successful \<open>connect\<close> the cache holds the strategy
  identifier and the address. Two runs where it does not: in a browser whose storage
  rejects writes \<open>connect\<close> succeeds and nothing is cached (the write error is caught);
  and a backend that reports the empty string as address makes \<open>connect\<close> succeed
  with that address in the state while the address entry of the cache is removed.
\<close>

theorem connect_without_cache:
  "fst (connect (wallet ''addr'') None metamask_selected_full) = Inr ()
   \<and> items (localStorage (snd (connect (wallet ''addr'') None metamask_selected_full)))
        STORAGE_KEYS_STRATEGY = None
   \<and> items (localStorage (snd (connect (wallet ''addr'') None metamask_selected_full)))
        STORAGE_KEYS_ADDRESS = None
   \<and> fst (connect (wallet []) None metamask_selected) = Inr ()
   \<and> address (current_state (snd (connect (wallet []) None metamask_selected))) = Some []
   \<and> items (localStorage (snd (connect (wallet []) None metamask_selected)))
        STORAGE_KEYS_ADDRESS = None"
  by (simp add: metamask_selected_full_value metamask_selected_value connect_def wallet_def
      updateState_def cacheStrategy_def cacheAddress_def setItem_def removeItem_def
      full_storage_def empty_storage_def current_state_def spread_def)

text \<open>
  Claim C5, amended. When the storage accepts writes: after a successful \<open>connect\<close>
  the cache holds the identifier of the connected strategy, and it holds the connected
  address if that address is a string and not empty (otherwise the entry is absent);
  after a completed \<open>disconnect\<close> of a manager with an active strategy both cache
  entries are absent.
\<close>

theorem cache_round_trip:
  "(connect B perms r = (Inr (), r1) \<and> writable (localStorage r) \<longrightarrow>
      (\<exists>s a. currentStrategy r1 = Some s
           \<and> current_state r1 = \<lparr>connected = True, address = a,
                 publicKey = publicKey (current_state r1),
                 permissions = permissions (current_state r1), strategy = Some s\<rparr>
           \<and> items (localStorage r1) STORAGE_KEYS_STRATEGY = Some (strategy_id (cls s))
           \<and> items (localStorage r1) STORAGE_KEYS_ADDRESS
               = (if truthy a then a else None)))
 \<and> (currentStrategy r \<noteq> None \<and> disconnect B r = (Inr (), r2)
       \<and> writable (localStorage r) \<longrightarrow>
      items (localStorage r2) STORAGE_KEYS_STRATEGY = None
    \<and> items (localStorage r2) STORAGE_KEYS_ADDRESS = None)"
proof (intro conjI impI)
  assume h: "connect B perms r = (Inr (), r1) \<and> writable (localStorage r)"
  then obtain s where s: "currentStrategy r = Some s"
    by (auto simp add: connect_def split: option.splits)
  from h s obtain a pk ps where
    a: "on_getActiveAddress (B (oid s)) = Inr a" and
    pk: "on_getActivePublicKey (B (oid s)) = Inr pk" and
    ps: "on_getPermissions (B (oid s)) = Inr ps" and
    c: "on_connect (B (oid s)) perms = Inr ()"
    by (auto simp add: connect_def split: sum.splits)
  let ?u = "\<lparr>u_connected = Some True, u_address = Some a,
              u_publicKey = Some pk, u_permissions = Some ps,
              u_strategy = Some (currentStrategy r)\<rparr>"
  obtain x r' where u: "updateState ?u r = (x, r')" by (metis surj_pair)
  note f = updateState_fields [OF u]
  from h s a pk ps c u f(2) have r1: "x = None"
    "r1 = cacheAddress a (cacheStrategy (Some (strategy_id (cls s))) r')"
    by (auto simp add: connect_def split: option.splits)
  from h f(4) have w: "writable (localStorage r')" by simp
  have "currentStrategy r1 = Some s" using r1 f(2) s by (simp add: cache_keeps_manager)
  moreover have "current_state r1 = \<lparr>connected = True, address = a,
                 publicKey = publicKey (current_state r1),
                 permissions = permissions (current_state r1), strategy = Some s\<rparr>"
    using r1 f(1) s by (simp add: cache_keeps_manager spread_def)
  moreover have "items (localStorage r1) STORAGE_KEYS_STRATEGY = Some (strategy_id (cls s))"
    using r1 cache_written(1) [OF w strategy_id_not_empty] by simp
  moreover have "items (localStorage r1) STORAGE_KEYS_ADDRESS = (if truthy a then a else None)"
    using r1 cache_written(2) [OF w strategy_id_not_empty] by simp
  ultimately show "\<exists>s a. currentStrategy r1 = Some s
           \<and> current_state r1 = \<lparr>connected = True, address = a,
                 publicKey = publicKey (current_state r1),
                 permissions = permissions (current_state r1), strategy = Some s\<rparr>
           \<and> items (localStorage r1) STORAGE_KEYS_STRATEGY = Some (strategy_id (cls s))
           \<and> items (localStorage r1) STORAGE_KEYS_ADDRESS
               = (if truthy a then a else None)"
    by blast
next
  assume h: "currentStrategy r \<noteq> None \<and> disconnect B r = (Inr (), r2)
       \<and> writable (localStorage r)"
  then obtain s where s: "currentStrategy r = Some s" by auto
  let ?u = "\<lparr>u_connected = Some False, u_address = Some None, u_publicKey = Some None,
             u_permissions = Some [], u_strategy = Some None\<rparr>"
  obtain x r' where u: "updateState ?u (r\<lparr>currentStrategy := None\<rparr>) = (x, r')"
    by (metis surj_pair)
  note f = updateState_fields [OF u]
  from h s u have r2: "r2 = cacheAddress None (cacheStrategy None r')"
    by (auto simp add: disconnect_def split: option.splits sum.splits)
  from h f(4) have w: "writable (localStorage r')" by simp
  show "items (localStorage r2) STORAGE_KEYS_STRATEGY = None"
    using r2 cache_cleared(1) [OF w] by simp
  show "items (localStorage r2) STORAGE_KEYS_ADDRESS = None"
    using r2 cache_cleared(2) [OF w] by simp
qed

theorem cache_round_trip_witness:
  "connect (wallet ''addr'') None metamask_selected = (Inr (), metamask_connected)
   \<and> writable (localStorage metamask_selected)
   \<and> currentStrategy metamask_connected = Some \<lparr>oid = 1, cls = MetaMaskWalletStrategy\<rparr>
   \<and> address (current_state metamask_connected) = Some ''addr''
   \<and> items (localStorage metamask_connected) STORAGE_KEYS_STRATEGY = Some ''metamask''
   \<and> items (localStorage metamask_connected) STORAGE_KEYS_ADDRESS = Some ''addr''
   \<and> fst (disconnect (wallet ''addr'') metamask_connected) = Inr ()
   \<and> writable (localStorage metamask_connected)
   \<and> items (localStorage (snd (disconnect (wallet ''addr'') metamask_connected)))
        STORAGE_KEYS_STRATEGY = None
   \<and> items (localStorage (snd (disconnect (wallet ''addr'') metamask_connected)))
        STORAGE_KEYS_ADDRESS = None"
proof -
  have c: "connect (wallet ''addr'') None metamask_selected = (Inr (), metamask_connected)"
    unfolding metamask_connected_def
    by (simp add: metamask_selected_value connect_def wallet_def updateState_def)
  have w1: "writable (localStorage metamask_selected)"
    by (simp add: metamask_selected_value empty_storage_def)
  have cs: "currentStrategy metamask_connected = Some \<lparr>oid = 1, cls = MetaMaskWalletStrategy\<rparr>"
    by (simp add: metamask_connected_value)
  have ad: "address (current_state metamask_connected) = Some ''addr''"
    by (simp add: metamask_connected_value current_state_def)
  have df: "fst (disconnect (wallet ''addr'') metamask_connected) = Inr ()"
    by (simp add: metamask_connected_value disconnect_def wallet_def updateState_def)
  have d: "disconnect (wallet ''addr'') metamask_connected
      = (Inr (), snd (disconnect (wallet ''addr'') metamask_connected))"
    by (simp add: prod_eq_iff df)
  have w2: "writable (localStorage metamask_connected)"
    by (simp add: metamask_connected_value)
  note t1 = cache_round_trip [of "wallet ''addr''" None metamask_selected metamask_connected]
  note t2 = cache_round_trip [of "wallet ''addr''" None metamask_connected _
      "snd (disconnect (wallet ''addr'') metamask_connected)"]
  from t1 c w1 obtain s a where
    o1: "currentStrategy metamask_connected = Some s" and
    o2: "current_state metamask_connected = \<lparr>connected = True, address = a,
         publicKey = publicKey (current_state metamask_connected),
         permissions = permissions (current_state metamask_connected), strategy = Some s\<rparr>" and
    o3: "items (localStorage metamask_connected) STORAGE_KEYS_STRATEGY
       = Some (strategy_id (cls s))" and
    o4: "items (localStorage metamask_connected) STORAGE_KEYS_ADDRESS
       = (if truthy a then a else None)"
    by blast
  have "address (current_state metamask_connected) = a"
    by (subst o2) simp
  with ad have "a = Some ''addr''" by simp
  with o1 o3 o4 cs have k:
    "items (localStorage metamask_connected) STORAGE_KEYS_STRATEGY = Some ''metamask''"
    "items (localStorage metamask_connected) STORAGE_KEYS_ADDRESS = Some ''addr''"
    by (auto split: if_splits)
  from t2 cs d w2 have e:
    "items (localStorage (snd (disconnect (wallet ''addr'') metamask_connected)))
        STORAGE_KEYS_STRATEGY = None"
    "items (localStorage (snd (disconnect (wallet ''addr'') metamask_connected)))
        STORAGE_KEYS_ADDRESS = None"
    by simp_all
  from c w1 cs ad k df w2 e show ?thesis by simp
qed

section \<open>Selecting an unknown strategy\<close>

text \<open>
  Claim C8 says that \<open>setStrategy\<close> with an identifier that names no registered
  strategy changes nothing and returns \<open>false\<close>. For an identifier that starts with
  \<open>wauth-\<close> it does not: \<open>wauth-bogus\<close> is not in the registry of a new manager,
  yet \<open>setStrategy\<close> constructs a strategy for it, makes it the active one, puts it
  into the connection state and returns \<open>true\<close>.
\<close>

theorem setStrategy_unregistered_wauth:
  "currentStrategy fresh_manager = None
   \<and> strategies fresh_manager ''wauth-bogus'' = None
   \<and> fst (setStrategy ''wauth-bogus'' fresh_manager) = Inr True
   \<and> currentStrategy (snd (setStrategy ''wauth-bogus'' fresh_manager))
       = Some \<lparr>oid = 2, cls = WAuthStrategy ''bogus''\<rparr>
   \<and> strategy (current_state (snd (setStrategy ''wauth-bogus'' fresh_manager)))
       = Some \<lparr>oid = 2, cls = WAuthStrategy ''bogus''\<rparr>"
  by (simp add: fresh_manager_value setStrategy_def js_replace.simps
      getOrCreateWAuthStrategy_def new_strategy_def updateState_def current_state_def
      spread_def no_updates_def)

text \<open>
  Claim C8, amended. For an identifier that does not start with \<open>wauth-\<close> and is
  not in the registry, \<open>setStrategy\<close> returns \<open>false\<close>, does not throw, and leaves
  the whole runtime as it was, the active strategy and the connection state included.
\<close>

theorem setStrategy_unknown:
  assumes "\<not> startsWith strategyId ''wauth-''" and "strategies r strategyId = None"
  shows "setStrategy strategyId r = (Inr False, r)"
  using assms by (simp add: setStrategy_def)

theorem setStrategy_unknown_witness:
  "\<not> startsWith ''ledger'' ''wauth-'' \<and> strategies fresh_manager ''ledger'' = None
   \<and> setStrategy ''ledger'' fresh_manager = (Inr False, fresh_manager)"
  using setStrategy_unknown [of "''ledger''" fresh_manager]
  by (simp add: fresh_manager_value)

section \<open>Resolving strategies\<close>

lemma getOrCreateWAuthStrategy_found:
  assumes "getOrCreateWAuthStrategy p r = (found, r1)"
  shows "found = strategies r1 (''wauth-'' @ p)"
    and "found \<noteq> None"
    and "strategies r (''wauth-'' @ p) \<noteq> None \<Longrightarrow> r1 = r"
    and "constructed r1 \<le> Suc (constructed r)"
proof -
  show "found = strategies r1 (''wauth-'' @ p)"
    using assms by (auto simp add: getOrCreateWAuthStrategy_def Let_def)
  show "found \<noteq> None"
    using assms
    by (cases "strategies r (''wauth-'' @ p) = None")
       (auto simp add: getOrCreateWAuthStrategy_def Let_def new_strategy_def)
  show "strategies r (''wauth-'' @ p) \<noteq> None \<Longrightarrow> r1 = r"
    using assms by (auto simp add: getOrCreateWAuthStrategy_def Let_def)
  show "constructed r1 \<le> Suc (constructed r)"
    using assms
    by (cases "strategies r (''wauth-'' @ p) = None")
       (auto simp add: getOrCreateWAuthStrategy_def Let_def new_strategy_def)
qed

text \<open>
  What \<open>setStrategy\<close> leaves behind: either the identifier is still unknown and
  nothing has changed, or the registry maps it to the strategy that is now active.
  An identifier that was registered before keeps its strategy object, and no strategy
  object is constructed for it.
\<close>

lemma setStrategy_lookup:
  assumes "setStrategy sid r = (res, r')"
  shows "(case strategies r' sid of None \<Rightarrow> r' = r | Some s \<Rightarrow> currentStrategy r' = Some s)"
    and "strategies r sid = Some s0 \<Longrightarrow>
           strategies r' sid = Some s0 \<and> constructed r' = constructed r"
proof -
  obtain found r1 where f: "(if startsWith sid ''wauth-''
             then getOrCreateWAuthStrategy (js_replace ''wauth-'' [] sid) r
             else (strategies r sid, r)) = (found, r1)"
    by (metis surj_pair)
  have key: "found = strategies r1 sid"
  proof (cases "startsWith sid ''wauth-''")
    case True
    with f have "found = strategies r1 (''wauth-'' @ js_replace ''wauth-'' [] sid)"
      using getOrCreateWAuthStrategy_found(1) by simp
    with js_replace_prefix [OF True] show ?thesis by simp
  next
    case False
    with f show ?thesis by auto
  qed
  have old: "strategies r sid = Some s0 \<Longrightarrow> r1 = r"
  proof (cases "startsWith sid ''wauth-''")
    case True
    assume "strategies r sid = Some s0"
    then have "strategies r (''wauth-'' @ js_replace ''wauth-'' [] sid) \<noteq> None"
      using js_replace_prefix [OF True] by simp
    with f True show ?thesis using getOrCreateWAuthStrategy_found(3) by simp
  next
    case False
    with f show ?thesis by auto
  qed
  show "(case strategies r' sid of None \<Rightarrow> r' = r | Some s \<Rightarrow> currentStrategy r' = Some s)"
  proof (cases found)
    case None
    with f have "\<not> startsWith sid ''wauth-''"
      using getOrCreateWAuthStrategy_found(2) by (auto split: if_splits)
    with f None assms have "r' = r" by (auto simp add: setStrategy_def)
    with None key f \<open>\<not> startsWith sid ''wauth-''\<close> show ?thesis by auto
  next
    case (Some s)
    obtain e r2 where u: "updateState (no_updates\<lparr>u_strategy := Some (Some s)\<rparr>)
                     (r1\<lparr>currentStrategy := Some s\<rparr>) = (e, r2)"
      by (metis surj_pair)
    from f Some u assms have "r' = r2"
      by (auto simp add: setStrategy_def split: option.splits)
    with updateState_fields(2,3) [OF u] key Some show ?thesis
      by (auto split: option.splits)
  qed
  show "strategies r sid = Some s0 \<Longrightarrow>
           strategies r' sid = Some s0 \<and> constructed r' = constructed r"
  proof -
    assume a: "strategies r sid = Some s0"
    with old have r1: "r1 = r" by simp
    with key a have fs: "found = Some s0" by simp
    obtain e r2 where u: "updateState (no_updates\<lparr>u_strategy := Some (Some s0)\<rparr>)
                     (r1\<lparr>currentStrategy := Some s0\<rparr>) = (e, r2)"
      by (metis surj_pair)
    from f fs u assms have "r' = r2"
      by (auto simp add: setStrategy_def split: option.splits)
    with updateState_fields(3,5) [OF u] r1 a show ?thesis by simp
  qed
qed

subsection \<open>What the operations never undo\<close>

lemma reachable_perform: "reachable r \<Longrightarrow> reachable (perform x r)"
  by (cases x) (simp_all add: reachable.intros)

lemma reachable_perform_all: "reachable r \<Longrightarrow> reachable (perform_all xs r)"
  by (induction xs arbitrary: r) (simp_all add: reachable_perform)

lemma perform_all_append: "perform_all (xs @ ys) r = perform_all ys (perform_all xs r)"
  by (induction xs arbitrary: r) simp_all

text \<open>The reachable runtimes are those a list of operations produces from a new manager.\<close>

lemma reachable_iff_perform_all:
  "reachable r \<longleftrightarrow> (\<exists>ls cb xs. r = perform_all xs (new_WalletManager ls cb))"
proof
  assume "reachable r"
  then show "\<exists>ls cb xs. r = perform_all xs (new_WalletManager ls cb)"
  proof (induction rule: reachable.induct)
    case (constructed ls cb)
    have "new_WalletManager ls cb = perform_all [] (new_WalletManager ls cb)" by simp
    then show ?case by blast
  next
    case (after_setStrategy r strategyId)
    then obtain ls cb xs where "r = perform_all xs (new_WalletManager ls cb)" by blast
    then have "snd (setStrategy strategyId r)
        = perform_all (xs @ [Op_setStrategy strategyId]) (new_WalletManager ls cb)"
      by (simp add: perform_all_append)
    then show ?case by blast
  next
    case (after_connect r B perms)
    then obtain ls cb xs where "r = perform_all xs (new_WalletManager ls cb)" by blast
    then have "snd (connect B perms r)
        = perform_all (xs @ [Op_connect B perms]) (new_WalletManager ls cb)"
      by (simp add: perform_all_append)
    then show ?case by blast
  next
    case (after_disconnect r B)
    then obtain ls cb xs where "r = perform_all xs (new_WalletManager ls cb)" by blast
    then have "snd (disconnect B r)
        = perform_all (xs @ [Op_disconnect B]) (new_WalletManager ls cb)"
      by (simp add: perform_all_append)
    then show ?case by blast
  next
    case (after_autoReconnect r B)
    then obtain ls cb xs where "r = perform_all xs (new_WalletManager ls cb)" by blast
    then have "snd (autoReconnect B r)
        = perform_all (xs @ [Op_autoReconnect B]) (new_WalletManager ls cb)"
      by (simp add: perform_all_append)
    then show ?case by blast
  next
    case (after_onStateChange r l)
    then obtain ls cb xs where "r = perform_all xs (new_WalletManager ls cb)" by blast
    then have "onStateChange l r
        = perform_all (xs @ [Op_onStateChange l]) (new_WalletManager ls cb)"
      by (simp add: perform_all_append)
    then show ?case by blast
  next
    case (after_unsubscribe r l)
    then obtain ls cb xs where "r = perform_all xs (new_WalletManager ls cb)" by blast
    then have "unsubscribe l r
        = perform_all (xs @ [Op_unsubscribe l]) (new_WalletManager ls cb)"
      by (simp add: perform_all_append)
    then show ?case by blast
  next
    case (after_getState r)
    then obtain ls cb xs where "r = perform_all xs (new_WalletManager ls cb)" by blast
    then have "snd (getState r)
        = perform_all (xs @ [Op_getState]) (new_WalletManager ls cb)"
      by (simp add: perform_all_append)
    then show ?case by blast
  next
    case (environment r cb' ls')
    then obtain ls cb xs where "r = perform_all xs (new_WalletManager ls cb)" by blast
    then have "r\<lparr>localStorage := ls', callbacks := cb'\<rparr>
        = perform_all (xs @ [Op_environment ls' cb']) (new_WalletManager ls cb)"
      by (simp add: perform_all_append)
    then show ?case by blast
  qed
next
  assume "\<exists>ls cb xs. r = perform_all xs (new_WalletManager ls cb)"
  then show "reachable r"
    using reachable_perform_all reachable.constructed by blast
qed

lemma grows_refl: "grows r r"
  by (simp add: grows_def)

lemma grows_trans: "grows r r1 \<Longrightarrow> grows r1 r2 \<Longrightarrow> grows r r2"
  unfolding grows_def by (auto intro: map_le_trans)

lemma grows_updateState: "updateState u r = (e, r') \<Longrightarrow> grows r r'"
  using updateState_fields(3,7,8) [of u r e r'] by (simp add: grows_def)

lemma grows_select: "grows r (r\<lparr>currentStrategy := x\<rparr>)"
  by (simp add: grows_def)

lemma grows_cache: "grows r (cacheAddress x (cacheStrategy y r))"
  by (simp add: grows_def cacheAddress_def cacheStrategy_def split: sum.splits)

lemma grows_getOrCreateWAuthStrategy:
  assumes "getOrCreateWAuthStrategy p r = (found, r1)"
  shows "grows r r1"
proof (cases "strategies r (''wauth-'' @ p) = None")
  case True
  with assms have "r1 = r\<lparr>constructed := Suc (constructed r),
      strategies := (strategies r)(''wauth-'' @ p \<mapsto> \<lparr>oid = constructed r, cls = WAuthStrategy p\<rparr>)\<rparr>"
    by (auto simp add: getOrCreateWAuthStrategy_def Let_def new_strategy_def)
  with True show ?thesis by (auto simp add: grows_def map_le_def dom_def)
next
  case False
  with getOrCreateWAuthStrategy_found(3) [OF assms] have "r1 = r" by simp
  then show ?thesis by (simp add: grows_refl)
qed

lemma setStrategy_grows: "grows r (snd (setStrategy sid r))"
proof -
  obtain found r1 where f: "(if startsWith sid ''wauth-''
             then getOrCreateWAuthStrategy (js_replace ''wauth-'' [] sid) r
             else (strategies r sid, r)) = (found, r1)"
    by (metis surj_pair)
  have m: "grows r r1"
    using f grows_getOrCreateWAuthStrategy grows_refl by (auto split: if_splits)
  show ?thesis
  proof (cases found)
    case None
    with f m show ?thesis by (simp add: setStrategy_def)
  next
    case (Some s)
    obtain e r2 where u: "updateState (no_updates\<lparr>u_strategy := Some (Some s)\<rparr>)
                     (r1\<lparr>currentStrategy := Some s\<rparr>) = (e, r2)"
      by (metis surj_pair)
    with f Some have "snd (setStrategy sid r) = r2"
      by (auto simp add: setStrategy_def split: option.splits)
    moreover have "grows r r2"
      using m grows_select grows_updateState [OF u] by (blast intro: grows_trans)
    ultimately show ?thesis by simp
  qed
qed

lemma connect_grows: "grows r (snd (connect B perms r))"
proof -
  have ca: "\<And>u e r1 x y. updateState u r = (e, r1) \<Longrightarrow>
      grows r (cacheAddress x (cacheStrategy y r1))"
    using grows_updateState grows_cache by (blast intro: grows_trans)
  show ?thesis
    using grows_refl grows_updateState ca
    by (auto simp add: connect_def split: option.splits sum.splits prod.splits)
qed

lemma disconnect_grows: "grows r (snd (disconnect B r))"
proof -
  have up: "\<And>u e r1 z. updateState u (r\<lparr>currentStrategy := z\<rparr>) = (e, r1) \<Longrightarrow> grows r r1"
    using grows_updateState grows_select by (blast intro: grows_trans)
  have ca: "\<And>u e r1 x y z. updateState u (r\<lparr>currentStrategy := z\<rparr>) = (e, r1) \<Longrightarrow>
      grows r (cacheAddress x (cacheStrategy y r1))"
    using up grows_cache by (blast intro: grows_trans)
  show ?thesis
    using grows_refl up ca
    by (auto simp add: disconnect_def split: option.splits sum.splits prod.splits)
qed

lemma wauth_probe_grows: "grows r (snd (wauth_probe B r))"
  using grows_refl grows_updateState
  by (auto simp add: wauth_probe_def split: option.splits sum.splits prod.splits)

lemma autoReconnect_try_grows: "grows r (snd (autoReconnect_try B cid r))"
proof -
  obtain res1 r1 where s: "setStrategy cid r = (res1, r1)" by (metis surj_pair)
  have k1: "grows r r1" using setStrategy_grows [of r cid] s by simp
  obtain b r2 where p: "(if startsWith cid ''wauth-'' then wauth_probe B r1 else (False, r1))
      = (b, r2)" by (metis surj_pair)
  have "grows r1 r2"
    using wauth_probe_grows [of r1 B] p grows_refl by (auto split: if_splits)
  with k1 have k2: "grows r r2" by (rule grows_trans)
  obtain res3 r3 where c: "connect B None r2 = (res3, r3)" by (metis surj_pair)
  have "grows r2 r3" using connect_grows [of r2 B None] c by simp
  with k2 have k3: "grows r r3" by (rule grows_trans)
  show ?thesis
    using s k1 p k2 c k3 unfolding autoReconnect_try_def
    by (auto split: option.splits sum.splits prod.splits bool.splits if_splits)
qed

lemma autoReconnect_grows: "grows r (snd (autoReconnect B r))"
proof -
  have "\<And>cid res r1. autoReconnect_try B cid r = (res, r1) \<Longrightarrow> grows r r1"
    using autoReconnect_try_grows by (metis snd_conv)
  then show ?thesis
    using grows_refl
    by (auto simp add: autoReconnect_def Let_def split: sum.splits prod.splits if_splits)
qed

lemma perform_grows: "grows r (perform x r)"
proof (cases x)
  case (Op_setStrategy sid)
  then show ?thesis by (simp add: setStrategy_grows)
next
  case (Op_connect B perms)
  then show ?thesis by (simp add: connect_grows)
next
  case (Op_disconnect B)
  then show ?thesis by (simp add: disconnect_grows)
next
  case (Op_autoReconnect B)
  then show ?thesis by (simp add: autoReconnect_grows)
next
  case (Op_onStateChange l)
  then show ?thesis by (simp add: onStateChange_def grows_def)
next
  case (Op_unsubscribe l)
  then show ?thesis by (simp add: unsubscribe_def Let_def grows_def)
next
  case Op_getState
  then show ?thesis by (simp add: getState_def grows_def)
next
  case (Op_environment ls cb)
  then show ?thesis by (simp add: grows_def)
qed

lemma perform_all_grows: "grows r (perform_all xs r)"
proof (induction xs arbitrary: r)
  case Nil
  show ?case by (simp add: grows_refl)
next
  case (Cons x xs)
  have "grows r (perform x r)" by (rule perform_grows)
  moreover have "grows (perform x r) (perform_all xs (perform x r))" by (rule Cons.IH)
  ultimately show ?case using grows_trans by simp
qed

text \<open>
  Claim C6. Resolving an OAuth provider through \<open>getOrCreateWAuthStrategy\<close> yields
  a strategy object and constructs at most one; resolving the same provider again,
  after any operations of the manager in between, yields the very same object and
  changes nothing (in particular it constructs no strategy). And when \<open>setStrategy\<close>
  is called twice in a row with the same identifier, the second call leaves the active
  strategy as the first call left it and constructs no strategy.
\<close>

theorem strategy_resolution_idempotent:
  "(getOrCreateWAuthStrategy provider r = (s1, r1)
      \<and> getOrCreateWAuthStrategy provider (perform_all ops r1) = (s2, r2) \<longrightarrow>
        s1 \<noteq> None \<and> s2 = s1 \<and> r2 = perform_all ops r1
      \<and> constructed r1 \<le> Suc (constructed r))
   \<and> (setStrategy strategyId r = (res3, r3) \<and> setStrategy strategyId r3 = (res4, r4) \<longrightarrow>
        currentStrategy r4 = currentStrategy r3 \<and> constructed r4 = constructed r3)"
proof (intro conjI impI)
  assume h: "getOrCreateWAuthStrategy provider r = (s1, r1)
      \<and> getOrCreateWAuthStrategy provider (perform_all ops r1) = (s2, r2)"
  note a = getOrCreateWAuthStrategy_found [of provider r s1 r1]
  note b = getOrCreateWAuthStrategy_found [of provider "perform_all ops r1" s2 r2]
  from h a show n: "s1 \<noteq> None" by simp
  from h a have k: "strategies r1 (''wauth-'' @ provider) = s1" by simp
  have "strategies r1 \<subseteq>\<^sub>m strategies (perform_all ops r1)"
    using perform_all_grows [of r1 ops] by (simp add: grows_def)
  with k n have k': "strategies (perform_all ops r1) (''wauth-'' @ provider) = s1"
    by (auto simp add: map_le_def dom_def)
  with n h b show e: "r2 = perform_all ops r1" by simp
  with h b(1) k' show "s2 = s1" by simp
  from h a show "constructed r1 \<le> Suc (constructed r)" by simp
next
  assume h: "setStrategy strategyId r = (res3, r3) \<and> setStrategy strategyId r3 = (res4, r4)"
  note a = setStrategy_lookup [of strategyId r res3 r3]
  note b = setStrategy_lookup [of strategyId r3 res4 r4]
  show "currentStrategy r4 = currentStrategy r3"
  proof (cases "strategies r3 strategyId")
    case None
    with h a(1) have "r3 = r" by simp
    with h show ?thesis by auto
  next
    case (Some s)
    with h a(1) have "currentStrategy r3 = Some s" by simp
    moreover from h b(2) Some have "strategies r4 strategyId = Some s" by simp
    with h b(1) have "currentStrategy r4 = Some s" by simp
    ultimately show ?thesis by simp
  qed
  show "constructed r4 = constructed r3"
  proof (cases "strategies r3 strategyId")
    case None
    with h a(1) have "r3 = r" by simp
    with h show ?thesis by auto
  next
    case (Some s)
    with h b(2) show ?thesis by simp
  qed
qed

theorem strategy_resolution_idempotent_witness:
  "fst (getOrCreateWAuthStrategy ''github'' fresh_manager)
     = Some \<lparr>oid = 2, cls = WAuthStrategy ''github''\<rparr>
   \<and> fst (getOrCreateWAuthStrategy ''github''
          (perform_all [Op_setStrategy ''metamask'']
             (snd (getOrCreateWAuthStrategy ''github'' fresh_manager))))
     = Some \<lparr>oid = 2, cls = WAuthStrategy ''github''\<rparr>
   \<and> constructed (snd (getOrCreateWAuthStrategy ''github''
          (perform_all [Op_setStrategy ''metamask'']
             (snd (getOrCreateWAuthStrategy ''github'' fresh_manager))))) = 3
   \<and> currentStrategy (snd (setStrategy ''wauth-github'' fresh_manager))
     = Some \<lparr>oid = 2, cls = WAuthStrategy ''github''\<rparr>
   \<and> currentStrategy (snd (setStrategy ''wauth-github''
          (snd (setStrategy ''wauth-github'' fresh_manager))))
     = Some \<lparr>oid = 2, cls = WAuthStrategy ''github''\<rparr>"
proof -
  let ?G = "getOrCreateWAuthStrategy ''github'' fresh_manager"
  let ?P = "perform_all [Op_setStrategy ''metamask''] (snd ?G)"
  let ?G2 = "getOrCreateWAuthStrategy ''github'' ?P"
  let ?S = "setStrategy ''wauth-github'' fresh_manager"
  let ?S2 = "setStrategy ''wauth-github'' (snd ?S)"
  note t = strategy_resolution_idempotent [where provider = "''github''" and r = fresh_manager
      and ?s1.0 = "fst ?G" and ?r1.0 = "snd ?G" and ops = "[Op_setStrategy ''metamask'']"
      and ?s2.0 = "fst ?G2" and ?r2.0 = "snd ?G2"
      and strategyId = "''wauth-github''" and ?res3.0 = "fst ?S" and ?r3.0 = "snd ?S"
      and ?res4.0 = "fst ?S2" and ?r4.0 = "snd ?S2"]
  have g: "fst ?G = Some \<lparr>oid = 2, cls = WAuthStrategy ''github''\<rparr>"
    by (simp add: fresh_manager_value getOrCreateWAuthStrategy_def new_strategy_def)
  have c: "constructed ?P = 3"
    by (simp add: fresh_manager_value getOrCreateWAuthStrategy_def new_strategy_def
        setStrategy_def updateState_def)
  have s: "currentStrategy (snd ?S) = Some \<lparr>oid = 2, cls = WAuthStrategy ''github''\<rparr>"
    by (simp add: fresh_manager_value setStrategy_def js_replace.simps
        getOrCreateWAuthStrategy_def new_strategy_def updateState_def)
  from t have "fst ?G2 = fst ?G" "snd ?G2 = ?P"
    "currentStrategy (snd ?S2) = currentStrategy (snd ?S)" by simp_all
  with g c s show ?thesis by simp
qed

section \<open>Notifying observers\<close>

text \<open>
  When no subscribed callback unsubscribes anything or throws, \<open>forEach\<close> calls the
  callbacks at the indices it was asked to visit, in order, each with the current state.
\<close>

lemma forEach_listeners_quiet:
  assumes "\<forall>l \<in> set (stateListeners r). callbacks r l = []"
  shows "forEach_listeners n k r =
     (None, r\<lparr>notifications := notifications r @
        map (\<lambda>l. (l, current_state r)) (take n (drop k (stateListeners r)))\<rparr>)"
  using assms
proof (induction n arbitrary: k r)
  case 0
  then show ?case by simp
next
  case (Suc n)
  show ?case
  proof (cases "k < length (stateListeners r)")
    case False
    then have "drop k (stateListeners r) = []" by simp
    moreover have "forEach_listeners n (Suc k) r =
      (None, r\<lparr>notifications := notifications r @
        map (\<lambda>l. (l, current_state r)) (take n (drop (Suc k) (stateListeners r)))\<rparr>)"
      using Suc.prems by (rule Suc.IH)
    ultimately show ?thesis using False by simp
  next
    case True
    let ?l = "stateListeners r ! k"
    let ?r1 = "r\<lparr>notifications := notifications r @ [(?l, current_state r)]\<rparr>"
    have q: "callbacks r ?l = []" using Suc.prems True by simp
    then have c: "call_listener ?l r = (None, ?r1)" by (simp add: call_listener_def)
    have "\<forall>l \<in> set (stateListeners ?r1). callbacks ?r1 l = []" using Suc.prems by simp
    then have "forEach_listeners n (Suc k) ?r1 =
      (None, ?r1\<lparr>notifications := notifications ?r1 @
        map (\<lambda>l. (l, current_state ?r1)) (take n (drop (Suc k) (stateListeners ?r1)))\<rparr>)"
      by (rule Suc.IH)
    moreover have "drop k (stateListeners r) = ?l # drop (Suc k) (stateListeners r)"
      using True by (simp add: Cons_nth_drop_Suc)
    ultimately show ?thesis using True c by (simp add: current_state_def)
  qed
qed

lemma updateState_quiet:
  assumes "\<forall>l \<in> set (stateListeners r). callbacks r l = []"
  shows "fst (updateState u r) = None"
    and "notifications (snd (updateState u r)) =
           notifications r @ map (\<lambda>l. (l, spread (current_state r) u)) (stateListeners r)"
    and "stateListeners (snd (updateState u r)) = stateListeners r"
  using assms
  by (simp_all add: updateState_def Let_def forEach_listeners_quiet current_state_def)

text \<open>
  The unsubscribe handle removes the first entry of the callback, as \<open>remove1\<close> does;
  it has no error result.
\<close>

lemma indexOf_lower: "- 1 \<le> indexOf xs l"
  by (induction xs) (auto simp add: Let_def)

lemma indexOf_splice1:
  "(if indexOf xs l > -1 then splice1 (nat (indexOf xs l)) xs else xs) = remove1 l xs"
proof (induction xs)
  case Nil
  show ?case by simp
next
  case (Cons x xs)
  show ?case
  proof (cases "x = l")
    case True
    then show ?thesis by (simp add: splice1_def)
  next
    case False
    show ?thesis
    proof (cases "indexOf xs l = -1")
      case True
      with False Cons show ?thesis by (simp add: Let_def)
    next
      case n: False
      with indexOf_lower [of xs l] have p: "0 \<le> indexOf xs l" by simp
      then have "nat (indexOf xs l + 1) = Suc (nat (indexOf xs l))" by simp
      with False n p Cons show ?thesis by (simp add: Let_def splice1_def)
    qed
  qed
qed

lemma unsubscribe_remove1:
  "unsubscribe l r = r\<lparr>stateListeners := remove1 l (stateListeners r)\<rparr>"
  using indexOf_splice1 [of "stateListeners r" l]
  by (auto simp add: unsubscribe_def Let_def split: if_splits)

lemma unsubscribe_removes:
  "distinct (stateListeners r) \<Longrightarrow> l \<notin> set (stateListeners (unsubscribe l r))"
  by (simp add: unsubscribe_remove1)

lemma run_callback_unsubscribed:
  assumes "l \<notin> set (stateListeners r)"
  shows "l \<notin> set (stateListeners (snd (run_callback acts r)))
       \<and> notifications (snd (run_callback acts r)) = notifications r"
  using assms
proof (induction acts r rule: run_callback.induct)
  case (1 r)
  then show ?case by simp
next
  case (2 j acts r)
  have "l \<notin> set (stateListeners (unsubscribe j r))"
    using "2.prems" by (auto simp add: unsubscribe_remove1 dest: notin_set_remove1)
  moreover have "notifications (unsubscribe j r) = notifications r"
    by (simp add: unsubscribe_remove1)
  ultimately show ?case using "2.IH" by simp
next
  case (3 e acts r)
  then show ?case by simp
qed

text \<open>
  A callback that is not subscribed when \<open>forEach\<close> starts is not called by it and
  is not subscribed when it ends.
\<close>

lemma forEach_listeners_unsubscribed:
  assumes "l \<notin> set (stateListeners r)"
  shows "l \<notin> set (stateListeners (snd (forEach_listeners n k r)))
       \<and> filter (\<lambda>p. fst p = l) (notifications (snd (forEach_listeners n k r)))
           = filter (\<lambda>p. fst p = l) (notifications r)"
  using assms
proof (induction n arbitrary: k r)
  case 0
  then show ?case by simp
next
  case (Suc n)
  show ?case
  proof (cases "k < length (stateListeners r)")
    case False
    with Suc show ?thesis by simp
  next
    case True
    let ?j = "stateListeners r ! k"
    let ?r0 = "r\<lparr>notifications := notifications r @ [(?j, current_state r)]\<rparr>"
    let ?r1 = "snd (call_listener ?j r)"
    have j: "?j \<noteq> l" using True Suc.prems nth_mem by metis
    have "l \<notin> set (stateListeners ?r0)" using Suc.prems by simp
    then have c: "l \<notin> set (stateListeners ?r1) \<and> notifications ?r1 = notifications ?r0"
      unfolding call_listener_def by (rule run_callback_unsubscribed)
    then have f: "filter (\<lambda>p. fst p = l) (notifications ?r1)
        = filter (\<lambda>p. fst p = l) (notifications r)" using j by simp
    from c have "l \<notin> set (stateListeners (snd (forEach_listeners n (Suc k) ?r1)))
       \<and> filter (\<lambda>p. fst p = l) (notifications (snd (forEach_listeners n (Suc k) ?r1)))
           = filter (\<lambda>p. fst p = l) (notifications ?r1)"
      using Suc.IH by blast
    with True c f show ?thesis
      by (cases "call_listener ?j r"; cases "fst (call_listener ?j r)") auto
  qed
qed

lemma updateState_unsubscribed:
  assumes "l \<notin> set (stateListeners r)"
  shows "filter (\<lambda>p. fst p = l) (notifications (snd (updateState u r)))
           = filter (\<lambda>p. fst p = l) (notifications r)"
  using forEach_listeners_unsubscribed [of l
      "r\<lparr>objects := (objects r)(next_object r := spread (current_state r) u),
          state := next_object r, next_object := Suc (next_object r)\<rparr>"] assms
  by (simp add: updateState_def Let_def)

text \<open>
  The run of the specification: the third observer unsubscribes the second during its
  own call. All three are called, in order, and the second is gone afterwards.
\<close>

lemma unsubscribe_during_last_callback:
  "fst (setStrategy ''metamask'' three_observers_third) = Inr True
   \<and> map fst (notifications (snd (setStrategy ''metamask'' three_observers_third))) = [1, 2, 3]
   \<and> stateListeners (snd (setStrategy ''metamask'' three_observers_third)) = [1, 3]"
  by (simp add: three_observers_third_def new_WalletManager_def initializeStrategies_def
      loadCachedStrategy_def new_strategy_def getItem_def empty_storage_def
      STORAGE_KEYS_STRATEGY_def onStateChange_def setStrategy_def updateState_def
      call_listener_def third_removes_second_def unsubscribe_def splice1_def
      numeral_3_eq_3)

text \<open>
  Claim C7 says that every state replacement notifies all currently subscribed
  observers in subscription order, also when an observer unsubscribes another one
  from within its callback. With observers 1, 2, 3 subscribed in this order, where
  observer 2 unsubscribes observer 1 when called, \<open>setStrategy\<close> replaces the state
  and calls observers 1 and 2 only: removing the first entry moves observer 3 to the
  index that \<open>forEach\<close> has just visited, so observer 3, still subscribed afterwards,
  is passed over.
\<close>

theorem observer_skipped:
  "stateListeners three_observers = [1, 2, 3]
   \<and> fst (setStrategy ''metamask'' three_observers) = Inr True
   \<and> map fst (notifications (snd (setStrategy ''metamask'' three_observers))) = [1, 2]
   \<and> stateListeners (snd (setStrategy ''metamask'' three_observers)) = [2, 3]"
  by (simp add: three_observers_def new_WalletManager_def initializeStrategies_def
      loadCachedStrategy_def new_strategy_def getItem_def empty_storage_def
      STORAGE_KEYS_STRATEGY_def onStateChange_def setStrategy_def updateState_def
      call_listener_def second_removes_first_def unsubscribe_def splice1_def
      numeral_3_eq_3)

section \<open>The raw signer\<close>

text \<open>
  Claim C9 says that every present, non-callable object is wrapped by the adapter
  into a callable signer. The call of \<open>createDataItemSigner\<close> stands in a
  \<open>try\<close> block whose \<open>catch\<close> returns null: for an object that the adapter rejects
  with an exception the result is null, and no signer is made.
\<close>

theorem createAoSigner_adapter_throws:
  "typeof (JSObject 7) = T_object
   \<and> js_truthy (JSObject 7)
   \<and> createAoSigner (\<lambda>ob. Inl TypeError) (JSObject 7) = JSNull"
  by (simp add: createAoSigner_def)

text \<open>
  Claim C9, amended. \<open>createAoSigner\<close> returns a callable value unchanged; it passes
  an object to the adapter and returns the function the adapter made of it, or null
  when the adapter throws; it returns null for every other value (null, undefined, and
  primitives); and its result is always null or a function, never an exception.
\<close>

theorem createAoSigner_cases:
  "(typeof v = T_function \<longrightarrow> createAoSigner adapter v = v)
   \<and> (\<forall>ob w. v = JSObject ob \<and> adapter ob = Inr w \<longrightarrow>
         createAoSigner adapter v = JSFunction w)
   \<and> (\<forall>ob e. v = JSObject ob \<and> adapter ob = Inl e \<longrightarrow> createAoSigner adapter v = JSNull)
   \<and> (typeof v \<noteq> T_function \<and> (\<forall>ob. v \<noteq> JSObject ob) \<longrightarrow>
         createAoSigner adapter v = JSNull)
   \<and> (createAoSigner adapter v = JSNull \<or> typeof (createAoSigner adapter v) = T_function)"
  by (cases v) (auto simp add: createAoSigner_def split: sum.splits)

theorem createAoSigner_cases_witness:
  "typeof (JSFunction 3) = T_function
   \<and> createAoSigner (\<lambda>ob. Inr 42) (JSFunction 3) = JSFunction 3
   \<and> createAoSigner (\<lambda>ob. Inr 42) (JSObject 7) = JSFunction 42
   \<and> createAoSigner (\<lambda>ob. Inl TypeError) (JSObject 7) = JSNull
   \<and> createAoSigner (\<lambda>ob. Inr 42) JSUndefined = JSNull
   \<and> createAoSigner (\<lambda>ob. Inr 42) JSNull = JSNull
   \<and> createAoSigner (\<lambda>ob. Inr 42) (JSString ''key'') = JSNull"
proof -
  note f = createAoSigner_cases [of "JSFunction 3" "\<lambda>ob. Inr 42"]
  note o1 = createAoSigner_cases [of "JSObject 7" "\<lambda>ob. Inr 42"]
  note o2 = createAoSigner_cases [of "JSObject 7" "\<lambda>ob. Inl TypeError"]
  note u = createAoSigner_cases [of JSUndefined "\<lambda>ob. Inr 42"]
  note n = createAoSigner_cases [of JSNull "\<lambda>ob. Inr 42"]
  note s = createAoSigner_cases [of "JSString ''key''" "\<lambda>ob. Inr 42"]
  from f have 1: "createAoSigner (\<lambda>ob. Inr 42) (JSFunction 3) = JSFunction 3" by simp
  from o1 have 2: "createAoSigner (\<lambda>ob. Inr 42) (JSObject 7) = JSFunction 42" by blast
  from o2 have 3: "createAoSigner (\<lambda>ob. Inl TypeError) (JSObject 7) = JSNull" by blast
  from u have 4: "createAoSigner (\<lambda>ob. Inr 42) JSUndefined = JSNull" by simp
  from n have 5: "createAoSigner (\<lambda>ob. Inr 42) JSNull = JSNull" by simp
  from s have 6: "createAoSigner (\<lambda>ob. Inr 42) (JSString ''key'') = JSNull" by simp
  from 1 2 3 4 5 6 show ?thesis by simp
qed

section \<open>Snapshots of the state\<close>

lemma spread_no_updates [simp]: "spread st no_updates = st"
  by (simp add: spread_def no_updates_def)

lemma assign_fields_unsubscribe:
  "unsubscribe l (assign_fields a u r) = assign_fields a u (unsubscribe l r)"
  by (simp add: unsubscribe_def assign_fields_def Let_def)

lemma assign_fields_run_callback:
  "run_callback acts (assign_fields a u r)
     = (fst (run_callback acts r), assign_fields a u (snd (run_callback acts r)))"
proof (induction acts r rule: run_callback.induct)
  case (1 r)
  show ?case by simp
next
  case (2 l acts r)
  then show ?case by (simp add: assign_fields_unsubscribe)
next
  case (3 e acts r)
  show ?case by simp
qed

lemma assign_fields_call_listener:
  assumes "a \<noteq> state r"
  shows "call_listener l (assign_fields a u r)
     = (fst (call_listener l r), assign_fields a u (snd (call_listener l r)))"
proof -
  have "(assign_fields a u r)\<lparr>notifications :=
          notifications (assign_fields a u r) @ [(l, current_state (assign_fields a u r))]\<rparr>
      = assign_fields a u (r\<lparr>notifications := notifications r @ [(l, current_state r)]\<rparr>)"
    using assms by (simp add: assign_fields_def current_state_def)
  moreover have "callbacks (assign_fields a u r) = callbacks r"
    by (simp add: assign_fields_def)
  ultimately show ?thesis
    by (simp add: call_listener_def assign_fields_run_callback)
qed

lemma call_listener_state:
  "state (snd (call_listener l r)) = state r"
    "stateListeners (assign_fields a u r) = stateListeners r"
proof -
  have "observers_only r (snd (call_listener l r))"
    by (rule call_listener_observers_only [of l r "fst (call_listener l r)"]) simp
  then have "snd (call_listener l r) = r\<lparr>stateListeners := stateListeners (snd (call_listener l r)),
     notifications := notifications (snd (call_listener l r))\<rparr>" by (simp add: observers_only_def)
  then show "state (snd (call_listener l r)) = state r"
    by (metis runtime.select_convs(3) runtime.surjective runtime.update_convs(4,10))
  show "stateListeners (assign_fields a u r) = stateListeners r"
    by (simp add: assign_fields_def)
qed

lemma assign_fields_forEach_listeners:
  assumes "a \<noteq> state r"
  shows "forEach_listeners n k (assign_fields a u r)
     = (fst (forEach_listeners n k r), assign_fields a u (snd (forEach_listeners n k r)))"
  using assms
proof (induction n arbitrary: k r)
  case 0
  show ?case by simp
next
  case (Suc n)
  show ?case
  proof (cases "k < length (stateListeners r)")
    case False
    with Suc show ?thesis by (simp add: call_listener_state(2))
  next
    case True
    let ?l = "stateListeners r ! k"
    obtain e r1 where c: "call_listener ?l r = (e, r1)" by (metis surj_pair)
    have c': "call_listener ?l (assign_fields a u r) = (e, assign_fields a u r1)"
      using assign_fields_call_listener [OF Suc.prems, of ?l u] c by simp
    have "state r1 = state r" using call_listener_state(1) [of ?l r] c by simp
    with Suc.prems have "a \<noteq> state r1" by simp
    then have "forEach_listeners n (Suc k) (assign_fields a u r1)
     = (fst (forEach_listeners n (Suc k) r1),
        assign_fields a u (snd (forEach_listeners n (Suc k) r1)))" by (rule Suc.IH)
    with True c c' show ?thesis
      by (cases e) (simp_all add: call_listener_state(2))
  qed
qed

text \<open>
  Assigning fields of an object that is neither the manager's state object nor
  unallocated commutes with \<open>updateState\<close>.
\<close>

lemma assign_fields_updateState:
  assumes "a \<noteq> state r" and "a < next_object r"
  shows "updateState u' (assign_fields a u r)
     = (fst (updateState u' r), assign_fields a u (snd (updateState u' r)))"
proof -
  let ?r1 = "r\<lparr>objects := (objects r)(next_object r := spread (current_state r) u'),
                 state := next_object r, next_object := Suc (next_object r)\<rparr>"
  have e: "(assign_fields a u r)\<lparr>objects := (objects (assign_fields a u r))
             (next_object (assign_fields a u r) :=
                spread (current_state (assign_fields a u r)) u'),
           state := next_object (assign_fields a u r),
           next_object := Suc (next_object (assign_fields a u r))\<rparr>
         = assign_fields a u ?r1"
    using assms by (auto simp add: assign_fields_def current_state_def fun_upd_twist)
  have n: "a \<noteq> state ?r1" using assms by simp
  show ?thesis
    unfolding updateState_def Let_def e
    using assign_fields_forEach_listeners [OF n] by (simp add: call_listener_state(2))
qed

lemma detached_grows: "detached a r \<Longrightarrow> grows r r' \<Longrightarrow> detached a r'"
  by (auto simp add: detached_def grows_def)

lemma assign_fields_simps [simp]:
  "strategies (assign_fields a u r) = strategies r"
  "currentStrategy (assign_fields a u r) = currentStrategy r"
  "state (assign_fields a u r) = state r"
  "stateListeners (assign_fields a u r) = stateListeners r"
  "next_object (assign_fields a u r) = next_object r"
  "constructed (assign_fields a u r) = constructed r"
  "localStorage (assign_fields a u r) = localStorage r"
  "callbacks (assign_fields a u r) = callbacks r"
  "notifications (assign_fields a u r) = notifications r"
  by (simp_all add: assign_fields_def)

lemma assign_fields_current_state:
  "a \<noteq> state r \<Longrightarrow> current_state (assign_fields a u r) = current_state r"
  by (simp add: assign_fields_def current_state_def)

lemma assign_fields_select:
  "assign_fields a u (r\<lparr>currentStrategy := x\<rparr>) = (assign_fields a u r)\<lparr>currentStrategy := x\<rparr>"
  by (simp add: assign_fields_def)

lemma assign_fields_cacheStrategy:
  "cacheStrategy x (assign_fields a u r) = assign_fields a u (cacheStrategy x r)"
  by (simp add: cacheStrategy_def assign_fields_def split: sum.splits)

lemma assign_fields_cacheAddress:
  "cacheAddress x (assign_fields a u r) = assign_fields a u (cacheAddress x r)"
  by (simp add: cacheAddress_def assign_fields_def split: sum.splits)

lemma assign_fields_getOrCreateWAuthStrategy:
  "getOrCreateWAuthStrategy p (assign_fields a u r)
     = (fst (getOrCreateWAuthStrategy p r),
        assign_fields a u (snd (getOrCreateWAuthStrategy p r)))"
  by (cases "strategies r (''wauth-'' @ p) = None")
     (simp_all add: getOrCreateWAuthStrategy_def Let_def new_strategy_def assign_fields_def)

lemma assign_fields_updateState':
  assumes "detached a r" and "updateState u' r = (e, r1)"
  shows "updateState u' (assign_fields a u r) = (e, assign_fields a u r1)"
  using assign_fields_updateState [of a r u' u] assms by (simp add: detached_def)

lemma assign_fields_setStrategy:
  assumes "detached a r"
  shows "setStrategy sid (assign_fields a u r)
     = (fst (setStrategy sid r), assign_fields a u (snd (setStrategy sid r)))"
proof -
  obtain found r1 where f: "(if startsWith sid ''wauth-''
             then getOrCreateWAuthStrategy (js_replace ''wauth-'' [] sid) r
             else (strategies r sid, r)) = (found, r1)"
    by (metis surj_pair)
  then have f': "(if startsWith sid ''wauth-''
             then getOrCreateWAuthStrategy (js_replace ''wauth-'' [] sid) (assign_fields a u r)
             else (strategies (assign_fields a u r) sid, assign_fields a u r))
           = (found, assign_fields a u r1)"
    by (auto simp add: assign_fields_getOrCreateWAuthStrategy split: if_splits)
  have g: "grows r r1"
    using f grows_getOrCreateWAuthStrategy grows_refl by (auto split: if_splits)
  show ?thesis
  proof (cases found)
    case None
    with f f' show ?thesis by (simp add: setStrategy_def)
  next
    case (Some s)
    obtain e r2 where u: "updateState (no_updates\<lparr>u_strategy := Some (Some s)\<rparr>)
                     (r1\<lparr>currentStrategy := Some s\<rparr>) = (e, r2)"
      by (metis surj_pair)
    have d: "detached a (r1\<lparr>currentStrategy := Some s\<rparr>)"
      using detached_grows [OF assms g] by (simp add: detached_def)
    have u': "updateState (no_updates\<lparr>u_strategy := Some (Some s)\<rparr>)
                     ((assign_fields a u r1)\<lparr>currentStrategy := Some s\<rparr>)
              = (e, assign_fields a u r2)"
      using assign_fields_updateState' [OF d u] by (simp add: assign_fields_select)
    from f f' Some u u' show ?thesis
      by (cases e) (simp_all add: setStrategy_def)
  qed
qed

lemma assign_fields_connect:
  assumes "detached a r"
  shows "connect B perms (assign_fields a u r)
     = (fst (connect B perms r), assign_fields a u (snd (connect B perms r)))"
proof -
  have up: "\<And>u' e r1. updateState u' r = (e, r1) \<Longrightarrow>
      updateState u' (assign_fields a u r) = (e, assign_fields a u r1)"
    using assign_fields_updateState' [OF assms] by simp
  show ?thesis
    unfolding connect_def
    by (auto simp add: up assign_fields_cacheStrategy assign_fields_cacheAddress
        split: option.splits sum.splits prod.splits)
qed

lemma assign_fields_disconnect:
  assumes "detached a r"
  shows "disconnect B (assign_fields a u r)
     = (fst (disconnect B r), assign_fields a u (snd (disconnect B r)))"
proof -
  have d: "\<And>x. detached a (r\<lparr>currentStrategy := x\<rparr>)"
    using assms by (simp add: detached_def)
  have up: "\<And>u' e r1 x. updateState u' (r\<lparr>currentStrategy := x\<rparr>) = (e, r1) \<Longrightarrow>
      updateState u' ((assign_fields a u r)\<lparr>currentStrategy := x\<rparr>)
        = (e, assign_fields a u r1)"
    using assign_fields_updateState' [OF d] by (simp add: assign_fields_select)
  show ?thesis
    unfolding disconnect_def
    by (auto simp add: up assign_fields_cacheStrategy assign_fields_cacheAddress
        split: option.splits sum.splits prod.splits)
qed

lemma assign_fields_wauth_probe:
  assumes "detached a r"
  shows "wauth_probe B (assign_fields a u r)
     = (fst (wauth_probe B r), assign_fields a u (snd (wauth_probe B r)))"
proof -
  have up: "\<And>u' e r1. updateState u' r = (e, r1) \<Longrightarrow>
      updateState u' (assign_fields a u r) = (e, assign_fields a u r1)"
    using assign_fields_updateState' [OF assms] by simp
  show ?thesis
    unfolding wauth_probe_def
    by (auto simp add: up split: option.splits sum.splits prod.splits)
qed

lemma assign_fields_autoReconnect_try:
  assumes "detached a r"
  shows "autoReconnect_try B cid (assign_fields a u r)
     = (fst (autoReconnect_try B cid r), assign_fields a u (snd (autoReconnect_try B cid r)))"
proof -
  obtain res1 r1 where s: "setStrategy cid r = (res1, r1)" by (metis surj_pair)
  have s': "setStrategy cid (assign_fields a u r) = (res1, assign_fields a u r1)"
    using assign_fields_setStrategy [OF assms, of cid u] s by simp
  have d1: "detached a r1"
    using detached_grows [OF assms setStrategy_grows [of r cid]] s by simp
  obtain b r2 where p: "(if startsWith cid ''wauth-'' then wauth_probe B r1 else (False, r1))
      = (b, r2)" by (metis surj_pair)
  have p': "(if startsWith cid ''wauth-'' then wauth_probe B (assign_fields a u r1)
             else (False, assign_fields a u r1)) = (b, assign_fields a u r2)"
    using p assign_fields_wauth_probe [OF d1, of B u] by (auto split: if_splits)
  have "grows r1 r2"
    using wauth_probe_grows [of r1 B] p grows_refl by (auto split: if_splits)
  with d1 have d2: "detached a r2" by (rule detached_grows)
  obtain res3 r3 where c: "connect B None r2 = (res3, r3)" by (metis surj_pair)
  have c': "connect B None (assign_fields a u r2) = (res3, assign_fields a u r3)"
    using assign_fields_connect [OF d2, of B None u] c by simp
  show ?thesis
    unfolding autoReconnect_try_def s s' using p p' c c'
    by (cases res1; cases b; cases res3)
       (auto split: option.splits sum.splits if_splits)
qed

lemma assign_fields_autoReconnect:
  assumes "detached a r"
  shows "autoReconnect B (assign_fields a u r)
     = (fst (autoReconnect B r), assign_fields a u (snd (autoReconnect B r)))"
proof -
  have g: "getCachedAddress (assign_fields a u r) = getCachedAddress r"
    by (simp add: getCachedAddress_def)
  show ?thesis
    unfolding autoReconnect_def Let_def g
    by (auto simp add: assign_fields_autoReconnect_try [OF assms]
        split: sum.splits prod.splits)
qed

text \<open>
  Assigning fields of an allocated object that is not the manager's state object
  commutes with every operation of the manager.
\<close>

lemma assign_fields_perform:
  assumes "detached a r"
  shows "perform x (assign_fields a u r) = assign_fields a u (perform x r)"
proof (cases x)
  case (Op_setStrategy sid)
  then show ?thesis by (simp add: assign_fields_setStrategy [OF assms])
next
  case (Op_connect B perms)
  then show ?thesis by (simp add: assign_fields_connect [OF assms])
next
  case (Op_disconnect B)
  then show ?thesis by (simp add: assign_fields_disconnect [OF assms])
next
  case (Op_autoReconnect B)
  then show ?thesis by (simp add: assign_fields_autoReconnect [OF assms])
next
  case (Op_onStateChange l)
  then show ?thesis by (simp add: onStateChange_def assign_fields_def)
next
  case (Op_unsubscribe l)
  then show ?thesis by (simp add: assign_fields_unsubscribe)
next
  case Op_getState
  then show ?thesis
    using assms
    by (auto simp add: getState_def assign_fields_def detached_def current_state_def
        fun_upd_twist)
next
  case (Op_environment ls cb)
  then show ?thesis by (simp add: assign_fields_def)
qed

lemma assign_fields_perform_all:
  assumes "detached a r"
  shows "perform_all xs (assign_fields a u r) = assign_fields a u (perform_all xs r)"
  using assms
proof (induction xs arbitrary: r)
  case Nil
  show ?case by simp
next
  case (Cons x xs)
  have "detached a (perform x r)"
    using Cons.prems perform_grows by (rule detached_grows)
  then have "perform_all xs (assign_fields a u (perform x r))
      = assign_fields a u (perform_all xs (perform x r))" by (rule Cons.IH)
  then show ?case by (simp add: assign_fields_perform [OF Cons.prems])
qed

text \<open>
  Claim C10. In every reachable runtime \<open>getState\<close> returns the reference of a newly
  allocated object, different from the manager's state object, which holds a copy of
  the state, and leaves the manager's state as it is. Assigning top-level fields of
  that object does not change the manager's connection state, and it commutes with
  every later sequence of operations: the observers are called with the same states,
  and the manager ends in the same connection state, as without the assignment.
\<close>

theorem getState_snapshot:
  assumes "reachable r" and "getState r = (snap, r1)"
  shows "snap = next_object r \<and> snap \<noteq> state r1
       \<and> state r1 = state r \<and> current_state r1 = current_state r
       \<and> objects r1 snap = current_state r
       \<and> current_state (assign_fields snap u r1) = current_state r
       \<and> perform_all ops (assign_fields snap u r1)
           = assign_fields snap u (perform_all ops r1)
       \<and> notifications (perform_all ops (assign_fields snap u r1))
           = notifications (perform_all ops r1)
       \<and> current_state (perform_all ops (assign_fields snap u r1))
           = current_state (perform_all ops r1)"
proof -
  from reachable_sound [OF assms(1)] have wf: "state r < next_object r"
    by (simp add: sound_def)
  from assms(2) have s: "snap = next_object r"
    and r1: "r1 = r\<lparr>objects := (objects r)(next_object r := spread (current_state r) no_updates),
        next_object := Suc (next_object r)\<rparr>"
    by (auto simp add: getState_def)
  have d: "detached snap r1" using s r1 wf by (simp add: detached_def)
  have c: "current_state r1 = current_state r" using r1 wf by (simp add: current_state_def)
  note co = assign_fields_perform_all [OF d, of ops u]
  have d': "detached snap (perform_all ops r1)"
    using d perform_all_grows by (rule detached_grows)
  have "notifications (perform_all ops (assign_fields snap u r1))
           = notifications (perform_all ops r1)"
    by (simp add: co)
  moreover have "current_state (perform_all ops (assign_fields snap u r1))
           = current_state (perform_all ops r1)"
    using d' by (simp add: co assign_fields_current_state detached_def)
  moreover have "current_state (assign_fields snap u r1) = current_state r"
    using d c by (simp add: assign_fields_current_state detached_def)
  moreover have "objects r1 snap = current_state r" using s r1 by simp
  moreover have "state r1 = state r" using r1 by simp
  moreover have "snap \<noteq> state r1" using d by (simp add: detached_def)
  ultimately show ?thesis using s c co by simp
qed

theorem getState_snapshot_witness:
  "reachable metamask_connected
   \<and> fst (getState metamask_connected) = 3
   \<and> state (snd (getState metamask_connected)) = 2
   \<and> connected (current_state (assign_fields 3 (no_updates\<lparr>u_connected := Some False\<rparr>)
        (snd (getState metamask_connected))))
   \<and> connected (current_state (perform_all [Op_setStrategy ''arweave-native'']
        (assign_fields 3 (no_updates\<lparr>u_connected := Some False\<rparr>)
           (snd (getState metamask_connected)))))"
proof -
  let ?r1 = "snd (getState metamask_connected)"
  let ?u = "no_updates\<lparr>u_connected := Some False\<rparr>"
  let ?ops = "[Op_setStrategy ''arweave-native'']"
  have g1: "fst (getState metamask_connected) = 3"
    by (simp add: getState_def metamask_connected_value)
  then have g: "getState metamask_connected = (3, ?r1)" by (simp add: prod_eq_iff)
  note t = getState_snapshot [OF metamask_connected_reachable g, of ?u ?ops]
  have c: "connected (current_state metamask_connected)"
    by (simp add: metamask_connected_value current_state_def)
  have s: "state metamask_connected = 2" by (simp add: metamask_connected_value)
  from t have e0: "current_state (assign_fields 3 ?u ?r1) = current_state metamask_connected"
    by blast
  from t have e2: "current_state (perform_all ?ops (assign_fields 3 ?u ?r1))
      = current_state (perform_all ?ops ?r1)" by blast
  from t have e3: "state ?r1 = state metamask_connected" by blast
  have p: "connected (current_state (perform_all ?ops ?r1))"
    by (simp add: metamask_connected_value getState_def setStrategy_def updateState_def
        current_state_def spread_def no_updates_def)
  from g1 metamask_connected_reachable c s e0 e2 e3 p show ?thesis by simp
qed

end
